theory Spec2Isabelle
  imports Main "HOL-Library.Sublist"
begin

section \<open>Go strings and formatting\<close>

text \<open>
  A Go string is a sequence of bytes and \<open>len\<close> counts bytes. HOL's \<open>string\<close> is a list
  of 8-bit characters, so \<open>length\<close> is Go's \<open>len\<close> and a non-ASCII character is the
  several bytes of its UTF-8 encoding.
\<close>

definition HasPrefix :: "string \<Rightarrow> string \<Rightarrow> bool" where
  "HasPrefix s p = prefix p s"

fun Contains :: "string \<Rightarrow> string \<Rightarrow> bool" where
  "Contains [] sub = (sub = [])"
| "Contains (c # cs) sub = (prefix sub (c # cs) \<or> Contains cs sub)"

text \<open>Decimal rendering of \<open>%d\<close>, as \<open>fmt.Sprintf\<close> and \<open>fmt.Errorf\<close> print an int.\<close>

fun natToDec :: "nat \<Rightarrow> string" where
  "natToDec n =
     (if n < 10 then [char_of (48 + n)]
      else natToDec (n div 10) @ [char_of (48 + n mod 10)])"

declare natToDec.simps [simp del]

definition Itoa :: "int \<Rightarrow> string" where
  "Itoa i = (if i < 0 then CHR ''-'' # natToDec (nat (- i)) else natToDec (nat i))"

text \<open>
  \<open>strings.TrimSpace\<close> removes leading and trailing white space as \<open>unicode.IsSpace\<close>
  defines it. The list holds the UTF-8 encodings of those code points: the six ASCII
  ones, U+0085, U+00A0, U+1680, U+2000 to U+200A, U+2028, U+2029, U+202F, U+205F, U+3000.
\<close>

definition space_runes :: "string list" where
  "space_runes =
     [[CHR 0x09], [CHR 0x0A], [CHR 0x0B], [CHR 0x0C], [CHR 0x0D], [CHR 0x20],
      [CHR 0xC2, CHR 0x85], [CHR 0xC2, CHR 0xA0],
      [CHR 0xE1, CHR 0x9A, CHR 0x80],
      [CHR 0xE2, CHR 0x80, CHR 0x80], [CHR 0xE2, CHR 0x80, CHR 0x81],
      [CHR 0xE2, CHR 0x80, CHR 0x82], [CHR 0xE2, CHR 0x80, CHR 0x83],
      [CHR 0xE2, CHR 0x80, CHR 0x84], [CHR 0xE2, CHR 0x80, CHR 0x85],
      [CHR 0xE2, CHR 0x80, CHR 0x86], [CHR 0xE2, CHR 0x80, CHR 0x87],
      [CHR 0xE2, CHR 0x80, CHR 0x88], [CHR 0xE2, CHR 0x80, CHR 0x89],
      [CHR 0xE2, CHR 0x80, CHR 0x8A],
      [CHR 0xE2, CHR 0x80, CHR 0xA8], [CHR 0xE2, CHR 0x80, CHR 0xA9],
      [CHR 0xE2, CHR 0x80, CHR 0xAF], [CHR 0xE2, CHR 0x81, CHR 0x9F],
      [CHR 0xE3, CHR 0x80, CHR 0x80]]"

definition leading_space :: "string \<Rightarrow> nat" where
  "leading_space s =
     (case filter (\<lambda>w. prefix w s) space_runes of [] \<Rightarrow> 0 | w # _ \<Rightarrow> length w)"

definition trailing_space :: "string \<Rightarrow> nat" where
  "trailing_space s =
     (case filter (\<lambda>w. suffix w s) space_runes of [] \<Rightarrow> 0 | w # _ \<Rightarrow> length w)"

lemma leading_space_le: "leading_space s \<le> length s"
proof (cases "filter (\<lambda>w. prefix w s) space_runes")
  case Nil
  then show ?thesis by (simp add: leading_space_def)
next
  case (Cons w ws)
  then have "w \<in> set (filter (\<lambda>w. prefix w s) space_runes)" by simp
  then have "prefix w s" by simp
  then have "length w \<le> length s" by (rule prefix_length_le)
  with Cons show ?thesis by (simp add: leading_space_def)
qed

lemma trailing_space_le: "trailing_space s \<le> length s"
proof (cases "filter (\<lambda>w. suffix w s) space_runes")
  case Nil
  then show ?thesis by (simp add: trailing_space_def)
next
  case (Cons w ws)
  then have "w \<in> set (filter (\<lambda>w. suffix w s) space_runes)" by simp
  then have "suffix w s" by simp
  then have "length w \<le> length s" by (rule suffix_length_le)
  with Cons show ?thesis by (simp add: trailing_space_def)
qed

function TrimLeft :: "string \<Rightarrow> string" where
  "TrimLeft s = (if leading_space s = 0 then s else TrimLeft (drop (leading_space s) s))"
  by pat_completeness auto
termination
proof (relation "measure length")
  show "wf (measure length)" by simp
next
  fix s :: string
  assume "leading_space s \<noteq> 0"
  moreover have "leading_space s \<le> length s" by (rule leading_space_le)
  ultimately show "(drop (leading_space s) s, s) \<in> measure length" by simp
qed

function TrimRight :: "string \<Rightarrow> string" where
  "TrimRight s =
     (if trailing_space s = 0 then s
      else TrimRight (take (length s - trailing_space s) s))"
  by pat_completeness auto
termination
proof (relation "measure length")
  show "wf (measure length)" by simp
next
  fix s :: string
  assume "trailing_space s \<noteq> 0"
  moreover have "trailing_space s \<le> length s" by (rule trailing_space_le)
  ultimately show "(take (length s - trailing_space s) s, s) \<in> measure length" by simp
qed

declare TrimLeft.simps [simp del] TrimRight.simps [simp del]

definition TrimSpace :: "string \<Rightarrow> string" where
  "TrimSpace s = TrimRight (TrimLeft s)"

section \<open>Data model\<close>

text \<open>
  The types of \<open>tools/search/model.go\<close>. \<open>Region\<close> and \<open>TimeRange\<close> are string types
  with named constants; a value of either type can be any string.
\<close>

type_synonym Region = string
type_synonym TimeRange = string

definition RegionWT :: Region where "RegionWT = ''wt-wt''"
definition RegionUS :: Region where "RegionUS = ''us-en''"
definition RegionUK :: Region where "RegionUK = ''uk-en''"
definition RegionDE :: Region where "RegionDE = ''de-de''"
definition RegionFR :: Region where "RegionFR = ''fr-fr''"
definition RegionJP :: Region where "RegionJP = ''jp-jp''"
definition RegionCN :: Region where "RegionCN = ''cn-zh''"
definition RegionRU :: Region where "RegionRU = ''ru-ru''"

definition TimeRangeDay :: TimeRange where "TimeRangeDay = ''d''"
definition TimeRangeWeek :: TimeRange where "TimeRangeWeek = ''w''"
definition TimeRangeMonth :: TimeRange where "TimeRangeMonth = ''m''"
definition TimeRangeYear :: TimeRange where "TimeRangeYear = ''y''"
definition TimeRangeAny :: TimeRange where "TimeRangeAny = []"

definition searchHTMLURL :: string where
  "searchHTMLURL = ''https://html.duckduckgo.com/html/''"

record TextSearchRequest =
  Query :: string
  TimeRange :: TimeRange

record TextSearchResult =
  Title :: string
  URL :: string
  Summary :: string

record TextSearchResponse =
  Message :: string
  Results :: "TextSearchResult list"
  ErrorMessage :: string

text \<open>
  \<open>url.Values\<close> and \<open>http.Header\<close> are Go maps from a key to a list of values. They are
  association lists with one entry per key: a composite literal lists its keys, an
  assignment \<open>body[k] = v\<close> and \<open>Set\<close> replace the entry of \<open>k\<close> or add one, and \<open>len\<close>
  is the number of entries.
\<close>

type_synonym Values = "(string \<times> string list) list"

fun assign :: "Values \<Rightarrow> string \<Rightarrow> string list \<Rightarrow> Values" where
  "assign [] k v = [(k, v)]"
| "assign ((k', v') # m) k v = (if k' = k then (k, v) # m else (k', v') # assign m k v)"

definition Set :: "Values \<Rightarrow> string \<Rightarrow> string \<Rightarrow> Values" where
  "Set m k v = assign m k [v]"

text \<open>
  A \<open>context.Context\<close> is nil, or a context whose \<open>Done\<close> channel closes at some instant
  of the clock (in seconds) or never, as with \<open>context.Background\<close>.
\<close>

datatype Context = NilCtx | DoneAt "nat option"

text \<open>
  An \<open>http.Request\<close> as \<open>TextSearch\<close> builds it. \<open>Body\<close> keeps the form values whose
  \<open>Encode\<close> is the body sent.
\<close>

record Request =
  Method :: string
  Url :: string
  Header :: Values
  Body :: Values
  ReqCtx :: Context

text \<open>
  What \<open>httpCli.Do\<close> hands back when it returns no error: the status code and the outcome
  of \<open>io.ReadAll\<close> on the body (\<open>Inl\<close> a read error, \<open>Inr\<close> the bytes read).
\<close>

record Response =
  StatusCode :: int
  RespBody :: "string + string"

text \<open>
  The view of a parsed page that the selectors of \<open>parseTextHTMLSearchResponse\<close> take.
  An element carries its attributes and its text content. A \<open>web_result\<close> is one node of
  \<open>div#links div.web-result\<close> with the matches of \<open>h2.result__title > a\<close> and of
  \<open>a.result__snippet\<close> below it, in document order. \<open>nav_links\<close> are the matches of
  \<open>div.nav-link\<close>, and \<open>forms\<close> gives for every \<open>form\<close> its \<open>input[type=hidden]\<close>
  descendants. The rows of the last table only size the result slice's capacity and are
  left out.
\<close>

record element =
  attrs :: "(string \<times> string) list"
  text_of :: string

record web_result =
  title_links :: "element list"
  snippets :: "element list"

record document =
  web_results :: "web_result list"
  nav_links :: "element list"
  forms :: "element list list"

definition Attr :: "element \<Rightarrow> string \<Rightarrow> string \<times> bool" where
  "Attr e name = (case map_of (attrs e) name of None \<Rightarrow> ([], False) | Some v \<Rightarrow> (v, True))"

section \<open>Request construction\<close>

text \<open>
  \<open>buildTextHTMLRequestHeader\<close> and \<open>buildTextHTMLRequestBody\<close> of
  \<open>tools/search/text_search.go\<close>. The header's user agent is the value \<open>uarand.GetRandom\<close>
  returned.
\<close>

definition buildTextHTMLRequestHeader :: "string \<Rightarrow> Values" where
  "buildTextHTMLRequestHeader ua =
     [(''Referer'', [''https://html.duckduckgo.com/'']),
      (''Sec-Fetch-Site'', [''same-origin'']),
      (''Sec-Fetch-Dest'', [''document'']),
      (''Sec-Fetch-Mode'', [''navigate'']),
      (''Sec-Fetch-User'', [''?1'']),
      (''Content-Type'', [''application/x-www-form-urlencoded'']),
      (''User-Agent'', [ua])]"

definition buildTextHTMLRequestBody :: "TextSearchRequest \<Rightarrow> Region \<Rightarrow> Values" where
  "buildTextHTMLRequestBody t region =
     (let body = [(''q'', [Query t]), (''b'', [[]]), (''kl'', [[]]), (''df'', [TimeRangeAny])];
          body = (if region \<noteq> RegionWT then assign body ''kl'' [region] else body);
          body = (if TimeRange t \<in> {TimeRangeDay, TimeRangeWeek, TimeRangeMonth, TimeRangeYear}
                  then assign body ''df'' [TimeRange t] else body)
      in body)"

text \<open>
  \<open>http.NewRequestWithContext\<close> with the constant method and URL of \<open>TextSearch\<close> fails
  only on a nil context.
\<close>

definition NewRequestWithContext ::
  "Context \<Rightarrow> string \<Rightarrow> string \<Rightarrow> Values \<Rightarrow> string + Request" where
  "NewRequestWithContext ctx method url body =
     (case ctx of
        NilCtx \<Rightarrow> Inl ''net/http: nil Context''
      | DoneAt d \<Rightarrow>
          Inr \<lparr>Method = method, Url = url, Header = [], Body = body, ReqCtx = ctx\<rparr>)"

section \<open>Response parsing\<close>

text \<open>
  \<open>parseTextHTMLSearchResponse\<close> of \<open>tools/search/text_search.go\<close>. First the body of the
  \<open>Each\<close> callback over the result nodes. The state is the pair of
  \<open>hrefCache\<close> (the hrefs seen on this page) and the results appended so far; every
  \<open>return\<close> of the callback leaves the state as it is.
\<close>

definition parse_entry ::
  "string list \<times> TextSearchResult list \<Rightarrow> web_result \<Rightarrow> string list \<times> TextSearchResult list" where
  "parse_entry st s =
     (case st of (hrefCache, results) \<Rightarrow>
        (case title_links s of
           [] \<Rightarrow> st
         | title # _ \<Rightarrow>
             let href = fst (Attr title ''href'') in
             if href = [] then st
             else if href \<in> set hrefCache
                     \<or> HasPrefix href ''http://www.google.com/search?q=''
                     \<or> HasPrefix href ''https://duckduckgo.com/y.js?ad_domain'' then st
             else (case snippets s of
                     [] \<Rightarrow> st
                   | summary # _ \<Rightarrow>
                       (href # hrefCache,
                        results @ [\<lparr>Title = TrimSpace (text_of title), URL = href,
                                    Summary = TrimSpace (text_of summary)\<rparr>]))))"

text \<open>The callback over the hidden inputs of the last form.\<close>

definition collect_hidden :: "Values \<Rightarrow> element \<Rightarrow> Values" where
  "collect_hidden nextReqBody s =
     (case Attr s ''name'' of (name, nameExist) \<Rightarrow>
        (case Attr s ''value'' of (val, valueExist) \<Rightarrow>
           if nameExist \<and> valueExist then Set nextReqBody name val else nextReqBody))"

definition last_form :: "document \<Rightarrow> element list" where
  "last_form doc = (case forms doc of [] \<Rightarrow> [] | _ \<Rightarrow> last (forms doc))"

text \<open>
  \<open>goquery.NewDocumentFromReader\<close> is the library's HTML parser; it is a parameter giving
  for a body either its error or the document.
\<close>

definition parseTextHTMLSearchResponse ::
  "(string \<Rightarrow> string + document) \<Rightarrow> string \<Rightarrow> string + (TextSearchResult list \<times> Values)" where
  "parseTextHTMLSearchResponse NewDocumentFromReader respBody =
     (case NewDocumentFromReader respBody of
        Inl err \<Rightarrow> Inl (''failed to parse response: '' @ err)
      | Inr doc \<Rightarrow>
          let results = snd (foldl parse_entry ([], []) (web_results doc)) in
          if length (nav_links doc) = 0 then Inr (results, [])
          else Inr (results, foldl collect_hidden [] (last_form doc)))"


section \<open>The search client\<close>

text \<open>
  The errors of \<open>doTextHTMLSearch\<close>, one constructor for each \<open>fmt.Errorf\<close> of the
  function, and \<open>Error\<close> for the text each one prints. A wrapped error (\<open>%w\<close>) is kept
  as its text.
\<close>

datatype search_error =
    NetworkError string
  | RateLimited
  | Blocked
  | UpstreamError int
  | ReadError string
  | ResponseFormatError string

fun Error :: "search_error \<Rightarrow> string" where
  "Error (NetworkError err) = ''network error, please check your connection: '' @ err"
| "Error RateLimited = ''rate limit exceeded (status 429), please wait a moment and try again''"
| "Error Blocked =
     ''access forbidden (status 403), the search service may be blocking requests''"
| "Error (UpstreamError code) =
     ''search service returned status '' @ Itoa code @ '', please try again later''"
| "Error (ReadError err) = ''failed to read search results: '' @ err"
| "Error (ResponseFormatError err) = ''failed to parse search results: '' @ err"

text \<open>
  The world outside the function is a state of type \<open>'s\<close>. The client holds its HTTP
  transport, which consumes a request and answers with a transport error or a response;
  the runtime gives the other library calls: the HTML parser, the blocking receive from
  \<open>time.After d\<close> (\<open>d\<close> in seconds) and \<open>uarand.GetRandom\<close>.
\<close>

record 's client =
  httpCli :: "Request \<Rightarrow> 's \<Rightarrow> (string + Response) \<times> 's"
  maxResults :: int
  region :: Region

record 's runtime =
  NewDocumentFromReader :: "string \<Rightarrow> string + document"
  After :: "nat \<Rightarrow> 's \<Rightarrow> 's"
  GetRandom :: "'s \<Rightarrow> string \<times> 's"

definition StatusTooManyRequests :: int where "StatusTooManyRequests = 429"
definition StatusForbidden :: int where "StatusForbidden = 403"
definition StatusOK :: int where "StatusOK = 200"

definition doTextHTMLSearch ::
  "'s runtime \<Rightarrow> 's client \<Rightarrow> Context \<Rightarrow> Request \<Rightarrow> 's
     \<Rightarrow> (search_error + (TextSearchResult list \<times> Values)) \<times> 's" where
  "doTextHTMLSearch rt c ctx req s =
     (case httpCli c req s of
        (Inl err, s') \<Rightarrow> (Inl (NetworkError err), s')
      | (Inr resp, s') \<Rightarrow>
          if StatusCode resp = StatusTooManyRequests then (Inl RateLimited, s')
          else if StatusCode resp = StatusForbidden then (Inl Blocked, s')
          else if StatusCode resp \<noteq> StatusOK then (Inl (UpstreamError (StatusCode resp)), s')
          else (case RespBody resp of
                  Inl err \<Rightarrow> (Inl (ReadError err), s')
                | Inr respBody \<Rightarrow>
                    (case parseTextHTMLSearchResponse (NewDocumentFromReader rt) respBody of
                       Inl err \<Rightarrow> (Inl (ResponseFormatError err), s')
                     | Inr r \<Rightarrow> (Inr r, s'))))"

text \<open>
  A call either returns or panics. \<open>TextSearch\<close> always returns a nil error beside its
  response, so the response alone is the returned value.
\<close>

datatype 'a outcome = Panic string | Return 'a

text \<open>
  The trace of a call: every request handed to \<open>doTextHTMLSearch\<close>, which passes it to
  \<open>httpCli.Do\<close> once, and every pacing delay, in order.
\<close>

datatype event = Sent Request | Waited nat

text \<open>
  \<open>results[:n]\<close>, which panics when \<open>n\<close> is negative or beyond the slice. (Go allows
  \<open>n\<close> up to the capacity; the loop slices only when \<open>n\<close> is at most the length.)
\<close>

definition slice_to :: "'a list \<Rightarrow> int \<Rightarrow> 'a list outcome" where
  "slice_to xs n =
     (if n < 0 \<or> int (length xs) < n then Panic ''slice bounds out of range''
      else Return (take (nat n) xs))"

text \<open>The code after the loop.\<close>

definition finish :: "TextSearchResult list \<Rightarrow> TextSearchResponse" where
  "finish results =
     (if length results = 0
      then \<lparr>Message = ''No results found for your query. Try using different keywords or broader search terms.'',
            Results = [], ErrorMessage = []\<rparr>
      else \<lparr>Message = ''Found '' @ Itoa (int (length results)) @ '' results successfully.'',
            Results = results, ErrorMessage = []\<rparr>)"

definition error_response :: "string \<Rightarrow> TextSearchResponse" where
  "error_response msg = \<lparr>Message = [], Results = [], ErrorMessage = msg\<rparr>"

text \<open>
  One pass through the body of the \<open>for\<close> loop. It ends the call (a \<open>return\<close>, a
  \<open>break\<close> followed by the code after the loop, or a panic) or goes round again with
  the next request body and the results accumulated.
\<close>

datatype 's control =
    Finished "TextSearchResponse outcome" "event list" 's
  | Continue Values "TextSearchResult list" "event list" 's

definition page ::
  "'s runtime \<Rightarrow> 's client \<Rightarrow> Context \<Rightarrow> Values \<Rightarrow> Values \<Rightarrow> TextSearchResult list
     \<Rightarrow> event list \<Rightarrow> 's \<Rightarrow> 's control" where
  "page rt c ctx header reqBody results log s =
     (case NewRequestWithContext ctx ''POST'' searchHTMLURL reqBody of
        Inl err \<Rightarrow>
          Finished (Return (error_response (''failed to create search request: '' @ err))) log s
      | Inr req0 \<Rightarrow>
          let req = req0\<lparr>Header := header\<rparr> in
          (case doTextHTMLSearch rt c ctx req s of
             (Inl err, s') \<Rightarrow>
               Finished (Return (error_response
                 (''search request failed: '' @ Error err
                    @ ''. Please try again or rephrase your query''))) (log @ [Sent req]) s'
           | (Inr (resultsTmp, nextReqBody), s') \<Rightarrow>
               if length resultsTmp = 0 then Finished (Return (finish results)) (log @ [Sent req]) s'
               else
                 let results' = results @ resultsTmp in
                 if int (length results') \<ge> maxResults c then
                   (case slice_to results' (maxResults c) of
                      Panic p \<Rightarrow> Finished (Panic p) (log @ [Sent req]) s'
                    | Return kept \<Rightarrow> Finished (Return (finish kept)) (log @ [Sent req]) s')
                 else if length nextReqBody = 0 then
                   Finished (Return (finish results')) (log @ [Sent req]) s'
                 else Continue nextReqBody results' (log @ [Sent req, Waited 3]) (After rt 3 s')))"

lemma page_Continue_grows:
  assumes "page rt c ctx header reqBody results log s = Continue b r log' s'"
  shows "length results < length r" and "int (length r) < maxResults c"
  using assms
  by (auto simp: page_def Let_def split: sum.splits prod.splits if_splits outcome.splits)

function paginate ::
  "'s runtime \<Rightarrow> 's client \<Rightarrow> Context \<Rightarrow> Values \<Rightarrow> Values \<Rightarrow> TextSearchResult list
     \<Rightarrow> event list \<Rightarrow> 's \<Rightarrow> TextSearchResponse outcome \<times> event list \<times> 's" where
  "paginate rt c ctx header reqBody results log s =
     (case page rt c ctx header reqBody results log s of
        Finished out log' s' \<Rightarrow> (out, log', s')
      | Continue b r log' s' \<Rightarrow> paginate rt c ctx header b r log' s')"
  by pat_completeness auto
termination
proof (relation "measure (\<lambda>(rt, c, ctx, header, reqBody, results, log, s).
                   nat (maxResults c - int (length results)))")
  show "wf (measure (\<lambda>(rt :: 's runtime, c :: 's client, ctx :: Context, header :: Values,
                      reqBody :: Values, results :: TextSearchResult list,
                      log :: event list, s :: 's).
                   nat (maxResults c - int (length results))))"
    by simp
next
  fix rt :: "'s runtime" and c :: "'s client" and ctx header reqBody results log s b r log' s'
  assume "page rt c ctx header reqBody results log s = Continue b r log' s'"
  then have "length results < length r" and "int (length r) < maxResults c"
    by (rule page_Continue_grows)+
  then show "((rt, c, ctx, header, b, r, log', s'), (rt, c, ctx, header, reqBody, results, log, s))
        \<in> measure (\<lambda>(rt, c, ctx, header, reqBody, results, log, s).
                   nat (maxResults c - int (length results)))"
    by simp
qed

declare paginate.simps [simp del]

text \<open>
  \<open>TextSearch\<close> itself: the two validations, the allocation of the result slice
  (\<open>make([]*TextSearchResult, 0, c.maxResults)\<close> panics on a negative capacity), the header
  and the initial body, then the loop. The request pointer is taken to be non-nil, as the
  tool handler passes it.
\<close>

definition TextSearch ::
  "'s runtime \<Rightarrow> 's client \<Rightarrow> Context \<Rightarrow> TextSearchRequest \<Rightarrow> 's
     \<Rightarrow> TextSearchResponse outcome \<times> event list \<times> 's" where
  "TextSearch rt c ctx input s =
     (if Query input = [] then
        (Return (error_response ''search query is required, please provide a query string''), [], s)
      else if length (Query input) > 500 then
        (Return (error_response
           ''search query is too long (max 500 characters), please shorten your query''), [], s)
      else if maxResults c < 0 then (Panic ''makeslice: cap out of range'', [], s)
      else
        (case GetRandom rt s of (ua, s') \<Rightarrow>
           let header = buildTextHTMLRequestHeader ua;
               reqBody = buildTextHTMLRequestBody input (region c)
           in paginate rt c ctx header reqBody [] [] s'))"


section \<open>Character counts\<close>

text \<open>
  The number of characters of a query is what \<open>utf8.RuneCountInString\<close> counts: one for
  every well-formed UTF-8 sequence and one for every byte that starts none.
  \<open>rune_width\<close> is the width of the first rune of a non-empty string.
\<close>

definition cont_byte :: "string \<Rightarrow> nat \<Rightarrow> nat \<Rightarrow> nat \<Rightarrow> bool" where
  "cont_byte s i lo hi = (i < length s \<and> lo \<le> of_char (s ! i) \<and> of_char (s ! i) \<le> (hi :: nat))"

definition rune_width :: "string \<Rightarrow> nat" where
  "rune_width s =
     (let b = (of_char (hd s) :: nat);
          two = cont_byte s 1 0x80 0xBF;
          three = (\<lambda>lo hi. cont_byte s 1 lo hi \<and> cont_byte s 2 0x80 0xBF);
          four = (\<lambda>lo hi. cont_byte s 1 lo hi \<and> cont_byte s 2 0x80 0xBF \<and> cont_byte s 3 0x80 0xBF)
      in if b < 0x80 then 1
         else if 0xC2 \<le> b \<and> b \<le> 0xDF then (if two then 2 else 1)
         else if b = 0xE0 then (if three 0xA0 0xBF then 3 else 1)
         else if b = 0xED then (if three 0x80 0x9F then 3 else 1)
         else if 0xE1 \<le> b \<and> b \<le> 0xEF then (if three 0x80 0xBF then 3 else 1)
         else if b = 0xF0 then (if four 0x90 0xBF then 4 else 1)
         else if 0xF1 \<le> b \<and> b \<le> 0xF3 then (if four 0x80 0xBF then 4 else 1)
         else if b = 0xF4 then (if four 0x80 0x8F then 4 else 1)
         else 1)"

lemma rune_width_pos: "0 < rune_width s"
  by (simp add: rune_width_def Let_def)

function RuneCountInString :: "string \<Rightarrow> nat" where
  "RuneCountInString s = (if s = [] then 0 else Suc (RuneCountInString (drop (rune_width s) s)))"
  by pat_completeness auto
termination
proof (relation "measure length")
  show "wf (measure length)" by simp
next
  fix s :: string
  assume "s \<noteq> []"
  with rune_width_pos [of s] show "(drop (rune_width s) s, s) \<in> measure length" by simp
qed

declare RuneCountInString.simps [simp del]

section \<open>A scripted world\<close>

text \<open>
  A concrete world to run the client in. The state is a clock in seconds and the number
  of requests the server has answered. The transport answers the \<open>n\<close>-th request that
  reaches it with the \<open>n\<close>-th entry of a script and with a refused connection after the
  script's end; a request whose context is done fails without reaching the server, as
  \<open>http.Client.Do\<close> does. The delay advances the clock. The HTML parser reads a body as the
  document a table gives for it, and as the empty document otherwise.
\<close>

record world =
  clock :: nat
  served :: nat

definition done_at :: "Context \<Rightarrow> nat \<Rightarrow> bool" where
  "done_at ctx t = (case ctx of DoneAt (Some d) \<Rightarrow> d \<le> t | _ \<Rightarrow> False)"

definition script_Do ::
  "(string + Response) list \<Rightarrow> Request \<Rightarrow> world \<Rightarrow> (string + Response) \<times> world" where
  "script_Do answers req w =
     (if done_at (ReqCtx req) (clock w) then (Inl ''context canceled'', w)
      else ((if served w < length answers then answers ! served w
             else Inl ''connection refused''),
            w\<lparr>served := Suc (served w)\<rparr>))"

definition script_client :: "(string + Response) list \<Rightarrow> int \<Rightarrow> Region \<Rightarrow> world client" where
  "script_client answers n r = \<lparr>httpCli = script_Do answers, maxResults = n, region = r\<rparr>"

definition empty_document :: document where
  "empty_document = \<lparr>web_results = [], nav_links = [], forms = []\<rparr>"

definition script_runtime :: "(string \<times> document) list \<Rightarrow> world runtime" where
  "script_runtime pages =
     \<lparr>NewDocumentFromReader =
        (\<lambda>b. case map_of pages b of None \<Rightarrow> Inr empty_document | Some d \<Rightarrow> Inr d),
      After = (\<lambda>d w. w\<lparr>clock := clock w + d\<rparr>),
      GetRandom = (\<lambda>w. (''Mozilla/5.0'', w))\<rparr>"

definition world0 :: world where
  "world0 = \<lparr>clock = 0, served = 0\<rparr>"

definition ok_response :: "string \<Rightarrow> string + Response" where
  "ok_response b = Inr \<lparr>StatusCode = 200, RespBody = Inr b\<rparr>"

definition status_response :: "int \<Rightarrow> string + Response" where
  "status_response code = Inr \<lparr>StatusCode = code, RespBody = Inr []\<rparr>"

text \<open>Page building blocks: a result entry, and the navigation with its form.\<close>

definition entry :: "string \<Rightarrow> string \<Rightarrow> string \<Rightarrow> web_result" where
  "entry href title snippet =
     \<lparr>title_links = [\<lparr>attrs = [(''href'', href)], text_of = title\<rparr>],
      snippets = [\<lparr>attrs = [], text_of = snippet\<rparr>]\<rparr>"

definition hidden :: "string \<Rightarrow> string \<Rightarrow> element" where
  "hidden name val = \<lparr>attrs = [(''type'', ''hidden''), (''name'', name), (''value'', val)], text_of = []\<rparr>"

definition more_page :: "web_result list \<Rightarrow> element list \<Rightarrow> document" where
  "more_page es inputs =
     \<lparr>web_results = es, nav_links = [\<lparr>attrs = [(''class'', ''nav-link'')], text_of = []\<rparr>],
      forms = [inputs]\<rparr>"

definition last_page :: "web_result list \<Rightarrow> document" where
  "last_page es = \<lparr>web_results = es, nav_links = [], forms = []\<rparr>"

definition delays :: "event list \<Rightarrow> nat list" where
  "delays log = concat (map (\<lambda>e. case e of Waited d \<Rightarrow> [d] | Sent r \<Rightarrow> []) log)"

definition requests :: "event list \<Rightarrow> Request list" where
  "requests log = concat (map (\<lambda>e. case e of Sent r \<Rightarrow> [r] | Waited d \<Rightarrow> []) log)"


definition zhong :: string where
  "zhong = [CHR 0xE4, CHR 0xB8, CHR 0xAD]"

text \<open>The scenario of a two-page conversation: the pages, their results and the query.\<close>

definition result_a :: TextSearchResult where
  "result_a = \<lparr>Title = ''A'', URL = ''https://a.example/'', Summary = ''first''\<rparr>"

definition result_b :: TextSearchResult where
  "result_b = \<lparr>Title = ''B'', URL = ''https://b.example/'', Summary = ''second''\<rparr>"

definition result_c :: TextSearchResult where
  "result_c = \<lparr>Title = ''C'', URL = ''https://c.example/'', Summary = ''third''\<rparr>"

definition page_one :: document where
  "page_one =
     more_page [entry ''https://a.example/'' ''A'' ''first'', entry ''https://b.example/'' ''B'' ''second'']
       [hidden ''q'' ''go'', hidden ''s'' ''10'']"

definition page_two :: document where
  "page_two =
     last_page [entry ''https://c.example/'' ''C'' ''third'', entry ''https://a.example/'' ''A'' ''first'']"

definition token_one :: Values where
  "token_one = [(''q'', [''go'']), (''s'', [''10''])]"

definition two_pages :: "(string \<times> document) list" where
  "two_pages = [(''p1'', page_one), (''p2'', page_two)]"

definition untitled_page :: document where
  "untitled_page = last_page [entry ''https://example.com/'' [] ''snippet'']"

definition go_query :: TextSearchRequest where
  "go_query = \<lparr>Query = ''go'', TimeRange = []\<rparr>"

definition go_header :: Values where
  "go_header = buildTextHTMLRequestHeader ''Mozilla/5.0''"

section \<open>The steps of the loop\<close>

text \<open>
  The request \<open>TextSearch\<close> builds under a non-nil context, and the message it returns
  when \<open>doTextHTMLSearch\<close> fails.
\<close>

definition post_request :: "nat option \<Rightarrow> Values \<Rightarrow> Values \<Rightarrow> Request" where
  "post_request d header body =
     \<lparr>Method = ''POST'', Url = searchHTMLURL, Header = header, Body = body, ReqCtx = DoneAt d\<rparr>"

definition failure_message :: "search_error \<Rightarrow> string" where
  "failure_message e =
     ''search request failed: '' @ Error e @ ''. Please try again or rephrase your query''"

lemma Results_finish: "Results (finish rs) = rs"
  by (simp add: finish_def)

lemma ErrorMessage_finish: "ErrorMessage (finish rs) = []"
  by (simp add: finish_def)

lemma failure_message_nonempty: "failure_message e \<noteq> []"
  by (simp add: failure_message_def)

lemma paginate_Finished:
  "page rt c ctx h b acc lg s = Finished out lg' s' \<Longrightarrow> paginate rt c ctx h b acc lg s = (out, lg', s')"
  by (simp add: paginate.simps)

lemma paginate_Continue:
  "page rt c ctx h b acc lg s = Continue b' r lg' s'
   \<Longrightarrow> paginate rt c ctx h b acc lg s = paginate rt c ctx h b' r lg' s'"
  by (simp add: paginate.simps)

lemma page_error:
  "doTextHTMLSearch rt c (DoneAt d) (post_request d h b) s = (Inl e, s1)
   \<Longrightarrow> page rt c (DoneAt d) h b acc lg s
       = Finished (Return (error_response (failure_message e))) (lg @ [Sent (post_request d h b)]) s1"
  by (simp add: page_def NewRequestWithContext_def post_request_def failure_message_def)

lemma page_empty:
  "doTextHTMLSearch rt c (DoneAt d) (post_request d h b) s = (Inr ([], tok), s1)
   \<Longrightarrow> page rt c (DoneAt d) h b acc lg s
       = Finished (Return (finish acc)) (lg @ [Sent (post_request d h b)]) s1"
  by (simp add: page_def NewRequestWithContext_def post_request_def)

lemma page_full:
  "doTextHTMLSearch rt c (DoneAt d) (post_request d h b) s = (Inr (rs, tok), s1)
   \<Longrightarrow> rs \<noteq> [] \<Longrightarrow> 0 \<le> maxResults c \<Longrightarrow> maxResults c \<le> int (length (acc @ rs))
   \<Longrightarrow> page rt c (DoneAt d) h b acc lg s
       = Finished (Return (finish (take (nat (maxResults c)) (acc @ rs))))
           (lg @ [Sent (post_request d h b)]) s1"
  by (simp add: page_def NewRequestWithContext_def post_request_def slice_to_def Let_def)

lemma page_last:
  "doTextHTMLSearch rt c (DoneAt d) (post_request d h b) s = (Inr (rs, []), s1)
   \<Longrightarrow> rs \<noteq> [] \<Longrightarrow> int (length (acc @ rs)) < maxResults c
   \<Longrightarrow> page rt c (DoneAt d) h b acc lg s
       = Finished (Return (finish (acc @ rs))) (lg @ [Sent (post_request d h b)]) s1"
  by (simp add: page_def NewRequestWithContext_def post_request_def Let_def)

lemma page_more:
  "doTextHTMLSearch rt c (DoneAt d) (post_request d h b) s = (Inr (rs, tok), s1)
   \<Longrightarrow> rs \<noteq> [] \<Longrightarrow> tok \<noteq> [] \<Longrightarrow> int (length (acc @ rs)) < maxResults c
   \<Longrightarrow> page rt c (DoneAt d) h b acc lg s
       = Continue tok (acc @ rs) (lg @ [Sent (post_request d h b), Waited 3]) (After rt 3 s1)"
  by (simp add: page_def NewRequestWithContext_def post_request_def Let_def)

lemma paginate_error:
  "doTextHTMLSearch rt c (DoneAt d) (post_request d h b) s = (Inl e, s1)
   \<Longrightarrow> paginate rt c (DoneAt d) h b acc lg s
       = (Return (error_response (failure_message e)), lg @ [Sent (post_request d h b)], s1)"
  by (rule paginate_Finished) (rule page_error)

lemma paginate_stop:
  assumes "doTextHTMLSearch rt c (DoneAt d) (post_request d h b) s = (Inr (rs, tok), s1)"
    and "0 \<le> maxResults c"
    and "rs = [] \<or> tok = [] \<or> maxResults c \<le> int (length (acc @ rs))"
  shows "paginate rt c (DoneAt d) h b acc lg s
       = (Return (finish (if rs = [] then acc else take (nat (maxResults c)) (acc @ rs))),
          lg @ [Sent (post_request d h b)], s1)"
proof (cases "rs = []")
  case True
  with assms(1) show ?thesis by (simp add: paginate_Finished page_empty)
next
  case ne: False
  show ?thesis
  proof (cases "maxResults c \<le> int (length (acc @ rs))")
    case True
    with assms(1,2) ne show ?thesis by (simp add: paginate_Finished page_full)
  next
    case False
    with assms(3) ne have t: "tok = []" by simp
    from False have lt: "int (length (acc @ rs)) < maxResults c" by simp
    then have "take (nat (maxResults c)) (acc @ rs) = acc @ rs" by simp
    with assms(1) ne t lt show ?thesis by (simp add: paginate_Finished page_last)
  qed
qed

lemma page_Finished_bounded:
  assumes "page rt c ctx h b acc lg s = Finished (Return resp) lg' s'"
    and "int (length acc) \<le> maxResults c"
  shows "int (length (Results resp)) \<le> maxResults c"
  using assms
  by (auto simp: page_def Let_def slice_to_def Results_finish error_response_def
      split: sum.splits prod.splits if_splits)

lemma paginate_bounded:
  "int (length acc) \<le> maxResults c
   \<Longrightarrow> paginate rt c ctx h b acc lg s = (Return resp, lg', s')
   \<Longrightarrow> int (length (Results resp)) \<le> maxResults c"
proof (induction rt c ctx h b acc lg s rule: paginate.induct)
  case (1 rt c ctx h b acc lg s)
  show ?case
  proof (cases "page rt c ctx h b acc lg s")
    case (Finished out l2 s2)
    with "1.prems"(2) have "page rt c ctx h b acc lg s = Finished (Return resp) lg' s'"
      by (simp add: paginate_Finished)
    with "1.prems"(1) show ?thesis by (rule page_Finished_bounded[rotated])
  next
    case (Continue b2 r2 l2 s2)
    then have "int (length r2) < maxResults c" by (rule page_Continue_grows)
    moreover from Continue "1.prems"(2) have "paginate rt c ctx h b2 r2 l2 s2 = (Return resp, lg', s')"
      by (simp add: paginate_Continue)
    ultimately show ?thesis using "1.IH"[OF Continue] by simp
  qed
qed

lemma TextSearch_empty_query:
  "Query input = [] \<Longrightarrow> TextSearch rt c ctx input s =
     (Return (error_response ''search query is required, please provide a query string''), [], s)"
  by (simp add: TextSearch_def)

lemma TextSearch_long_query:
  "500 < length (Query input) \<Longrightarrow> TextSearch rt c ctx input s =
     (Return (error_response
        ''search query is too long (max 500 characters), please shorten your query''), [], s)"
  by (auto simp: TextSearch_def)

lemma TextSearch_enter:
  "Query input \<noteq> [] \<Longrightarrow> length (Query input) \<le> 500 \<Longrightarrow> 0 \<le> maxResults c
   \<Longrightarrow> GetRandom rt s = (ua, s0)
   \<Longrightarrow> TextSearch rt c ctx input s
       = paginate rt c ctx (buildTextHTMLRequestHeader ua)
           (buildTextHTMLRequestBody input (region c)) [] [] s0"
  by (simp add: TextSearch_def)

lemma TextSearch_bounded:
  assumes "TextSearch rt c ctx input s = (Return resp, lg, s')" and "ErrorMessage resp = []"
  shows "int (length (Results resp)) \<le> maxResults c"
proof -
  have valid: "Query input \<noteq> []" "length (Query input) \<le> 500" "0 \<le> maxResults c"
    using assms by (auto simp: TextSearch_def error_response_def split: if_splits)
  obtain ua s0 where g: "GetRandom rt s = (ua, s0)" by (cases "GetRandom rt s")
  from assms(1) have "paginate rt c ctx (buildTextHTMLRequestHeader ua)
           (buildTextHTMLRequestBody input (region c)) [] [] s0 = (Return resp, lg, s')"
    by (simp only: TextSearch_enter[OF valid g])
  with valid(3) show ?thesis by (intro paginate_bounded[where acc = "[]"]) simp_all
qed

lemma parse_entry_inv:
  assumes "parse_entry (hc, rs) e = (hc', rs')"
    and "distinct (map URL rs)" "\<forall>r \<in> set rs. URL r \<in> set hc" "\<forall>r \<in> set rs. URL r \<noteq> []"
  shows "distinct (map URL rs') \<and> (\<forall>r \<in> set rs'. URL r \<in> set hc') \<and> (\<forall>r \<in> set rs'. URL r \<noteq> [])"
  using assms
  by (auto simp: parse_entry_def Let_def split: list.splits if_splits)

lemma parse_entries_inv:
  assumes "foldl parse_entry (hc, rs) es = (hc', rs')"
    and "distinct (map URL rs)" "\<forall>r \<in> set rs. URL r \<in> set hc" "\<forall>r \<in> set rs. URL r \<noteq> []"
  shows "distinct (map URL rs') \<and> (\<forall>r \<in> set rs'. URL r \<in> set hc') \<and> (\<forall>r \<in> set rs'. URL r \<noteq> [])"
  using assms
proof (induction es arbitrary: hc rs)
  case Nil
  then show ?case by simp
next
  case (Cons e es)
  obtain hc1 rs1 where st: "parse_entry (hc, rs) e = (hc1, rs1)" by (cases "parse_entry (hc, rs) e")
  from parse_entry_inv[OF st Cons.prems(2,3,4)]
  have "distinct (map URL rs1)" "\<forall>r \<in> set rs1. URL r \<in> set hc1" "\<forall>r \<in> set rs1. URL r \<noteq> []" by simp_all
  moreover from Cons.prems(1) st have "foldl parse_entry (hc1, rs1) es = (hc', rs')" by simp
  ultimately show ?case by (rule Cons.IH[rotated])
qed

lemma parse_page_local:
  assumes "parseTextHTMLSearchResponse nd body = Inr (rs, tok)"
  shows "distinct (map URL rs)" and "\<forall>r \<in> set rs. URL r \<noteq> []"
proof -
  from assms obtain doc where d: "nd body = Inr doc"
    and rs: "rs = snd (foldl parse_entry ([], []) (web_results doc))"
    by (auto simp: parseTextHTMLSearchResponse_def Let_def split: sum.splits if_splits)
  obtain hc' where "foldl parse_entry ([], []) (web_results doc) = (hc', rs)"
    using rs by (cases "foldl parse_entry ([], []) (web_results doc)") simp
  from parse_entries_inv[OF this] show "distinct (map URL rs)" and "\<forall>r \<in> set rs. URL r \<noteq> []"
    by simp_all
qed

lemma parse_no_nav:
  "nd body = Inr doc \<Longrightarrow> nav_links doc = []
   \<Longrightarrow> parseTextHTMLSearchResponse nd body = Inr (snd (foldl parse_entry ([], []) (web_results doc)), [])"
  by (simp add: parseTextHTMLSearchResponse_def)

lemma length_repeat: "length (concat (replicate n xs)) = n * length xs"
  by (induction n) simp_all

lemma rune_count_zhong: "RuneCountInString (zhong @ s) = Suc (RuneCountInString s)"
  by (subst RuneCountInString.simps) (simp add: zhong_def rune_width_def cont_byte_def)

lemma rune_count_repeat_zhong: "RuneCountInString (concat (replicate n zhong)) = n"
proof (induction n)
  case 0
  show ?case by (simp add: RuneCountInString.simps)
next
  case (Suc n)
  then show ?case by (simp add: rune_count_zhong)
qed

lemma Contains_required:
  "Contains ''search query is required, please provide a query string'' ''query is required''"
  by simp

lemma Contains_too_long:
  "Contains ''search query is too long (max 500 characters), please shorten your query'' ''too long''"
  by simp



section \<open>The passes of a call\<close>

text \<open>
  The loop states of a call of \<open>TextSearch\<close>: the header, the request body, the results
  accumulated, the trace and the world at the head of a pass through the loop. The first
  is the one the call enters the loop with; each further one is where a pass that goes
  round again leaves the call.
\<close>

inductive loop_state ::
  "'s runtime \<Rightarrow> 's client \<Rightarrow> Context \<Rightarrow> TextSearchRequest \<Rightarrow> 's
     \<Rightarrow> Values \<Rightarrow> Values \<Rightarrow> TextSearchResult list \<Rightarrow> event list \<Rightarrow> 's \<Rightarrow> bool"
  for rt c ctx input w where
    first_pass:
      "Query input \<noteq> [] \<Longrightarrow> length (Query input) \<le> 500 \<Longrightarrow> 0 \<le> maxResults c
       \<Longrightarrow> GetRandom rt w = (ua, w0)
       \<Longrightarrow> loop_state rt c ctx input w (buildTextHTMLRequestHeader ua)
             (buildTextHTMLRequestBody input (region c)) [] [] w0"
  | next_pass:
      "loop_state rt c ctx input w h b acc lg s
       \<Longrightarrow> page rt c ctx h b acc lg s = Continue b' acc' lg' s'
       \<Longrightarrow> loop_state rt c ctx input w h b' acc' lg' s'"

lemma loop_state_paginate:
  "loop_state rt c ctx input w h b acc lg s
   \<Longrightarrow> TextSearch rt c ctx input w = paginate rt c ctx h b acc lg s"
proof (induction rule: loop_state.induct)
  case (first_pass ua w0)
  then show ?case by (rule TextSearch_enter)
next
  case (next_pass h b acc lg s b' acc' lg' s')
  then show ?case by (simp add: paginate_Continue)
qed

lemma loop_state_maxResults:
  "loop_state rt c ctx input w h b acc lg s \<Longrightarrow> 0 \<le> maxResults c"
  by (induction rule: loop_state.induct) simp_all

section \<open>What a page keeps and what a call accumulates\<close>

text \<open>
  The parser's requirements on an entry, said on the entry alone: it has a title link
  with a non-empty href that starts with neither wrapper prefix, and it has a snippet.
  \<open>result_of\<close> is the record built from such an entry, and \<open>first_occurrences\<close> is a
  list without its repetitions, every element staying at its first position.
  \<open>keep_new\<close> is the list of entries whose href is new, given the hrefs seen.
\<close>

definition entry_href :: "web_result \<Rightarrow> string" where
  "entry_href e = (case title_links e of [] \<Rightarrow> [] | t # _ \<Rightarrow> fst (Attr t ''href''))"

definition eligible :: "web_result \<Rightarrow> bool" where
  "eligible e =
     (title_links e \<noteq> [] \<and> entry_href e \<noteq> []
      \<and> \<not> HasPrefix (entry_href e) ''http://www.google.com/search?q=''
      \<and> \<not> HasPrefix (entry_href e) ''https://duckduckgo.com/y.js?ad_domain''
      \<and> snippets e \<noteq> [])"

definition result_of :: "web_result \<Rightarrow> TextSearchResult" where
  "result_of e =
     \<lparr>Title = (case title_links e of [] \<Rightarrow> [] | t # _ \<Rightarrow> TrimSpace (text_of t)),
      URL = entry_href e,
      Summary = (case snippets e of [] \<Rightarrow> [] | s # _ \<Rightarrow> TrimSpace (text_of s))\<rparr>"

definition first_occurrences :: "'a list \<Rightarrow> 'a list" where
  "first_occurrences xs = rev (remdups (rev xs))"

fun keep_new :: "string list \<Rightarrow> web_result list \<Rightarrow> web_result list" where
  "keep_new seen [] = []"
| "keep_new seen (e # es) =
     (if entry_href e \<in> set seen then keep_new seen es
      else e # keep_new (entry_href e # seen) es)"

lemma parse_entry_keep:
  "eligible e \<Longrightarrow> entry_href e \<notin> set hc
   \<Longrightarrow> parse_entry (hc, rs) e = (entry_href e # hc, rs @ [result_of e])"
  by (auto simp: parse_entry_def eligible_def entry_href_def result_of_def Let_def
      split: list.splits)

lemma parse_entry_seen:
  "entry_href e \<in> set hc \<Longrightarrow> parse_entry (hc, rs) e = (hc, rs)"
  by (auto simp: parse_entry_def entry_href_def Let_def split: list.splits)

lemma parse_entry_skip:
  "\<not> eligible e \<Longrightarrow> parse_entry (hc, rs) e = (hc, rs)"
  by (auto simp: parse_entry_def eligible_def entry_href_def Let_def split: list.splits)

lemma foldl_parse_entry:
  "snd (foldl parse_entry (hc, rs) es) = rs @ map result_of (keep_new hc (filter eligible es))"
proof (induction es arbitrary: hc rs)
  case Nil
  show ?case by simp
next
  case (Cons e es)
  show ?case
  proof (cases "eligible e")
    case False
    then show ?thesis by (simp add: parse_entry_skip Cons.IH)
  next
    case True
    show ?thesis
    proof (cases "entry_href e \<in> set hc")
      case seen: True
      with True show ?thesis by (simp add: parse_entry_seen Cons.IH)
    next
      case new: False
      with True show ?thesis by (simp add: parse_entry_keep Cons.IH)
    qed
  qed
qed

lemma remdups_snoc: "remdups (ys @ [x]) = filter (\<lambda>y. y \<noteq> x) (remdups ys) @ [x]"
  by (induction ys) auto

lemma first_occurrences_Nil: "first_occurrences [] = []"
  by (simp add: first_occurrences_def)

lemma first_occurrences_Cons:
  "first_occurrences (x # xs) = x # first_occurrences (filter (\<lambda>y. y \<noteq> x) xs)"
  by (simp add: first_occurrences_def remdups_snoc rev_filter remdups_filter)

lemma keep_new_hrefs:
  "map entry_href (keep_new seen es)
     = first_occurrences (filter (\<lambda>h. h \<notin> set seen) (map entry_href es))"
proof (induction es arbitrary: seen)
  case Nil
  show ?case by (simp add: first_occurrences_Nil)
next
  case (Cons e es)
  show ?case
  proof (cases "entry_href e \<in> set seen")
    case True
    then show ?thesis by (simp add: Cons.IH)
  next
    case False
    have "filter (\<lambda>y. y \<noteq> entry_href e) (filter (\<lambda>h. h \<notin> set seen) (map entry_href es))
        = filter (\<lambda>h. h \<notin> set (entry_href e # seen)) (map entry_href es)"
      by (auto intro: filter_cong)
    with False show ?thesis by (simp add: Cons.IH first_occurrences_Cons)
  qed
qed

lemma keep_new_unseen: "k \<in> set (keep_new seen es) \<Longrightarrow> entry_href k \<notin> set seen"
proof (induction es arbitrary: seen)
  case Nil
  then show ?case by simp
next
  case (Cons e es)
  show ?case
  proof (cases "entry_href e \<in> set seen")
    case True
    with Cons.prems have "k \<in> set (keep_new seen es)" by simp
    then show ?thesis by (rule Cons.IH)
  next
    case False
    with Cons.prems have "k = e \<or> k \<in> set (keep_new (entry_href e # seen) es)" by simp
    then show ?thesis
    proof
      assume "k = e"
      with False show ?thesis by simp
    next
      assume "k \<in> set (keep_new (entry_href e # seen) es)"
      then have "entry_href k \<notin> set (entry_href e # seen)" by (rule Cons.IH)
      then show ?thesis by simp
    qed
  qed
qed

lemma keep_new_first:
  "k \<in> set (keep_new seen es) \<Longrightarrow> find (\<lambda>e. entry_href e = entry_href k) es = Some k"
proof (induction es arbitrary: seen)
  case Nil
  then show ?case by simp
next
  case (Cons e es)
  show ?case
  proof (cases "entry_href e \<in> set seen")
    case True
    with Cons.prems have k: "k \<in> set (keep_new seen es)" by simp
    then have "entry_href k \<notin> set seen" by (rule keep_new_unseen)
    with True have "entry_href e \<noteq> entry_href k" by auto
    with Cons.IH [OF k] show ?thesis by simp
  next
    case False
    with Cons.prems have "k = e \<or> k \<in> set (keep_new (entry_href e # seen) es)" by simp
    then show ?thesis
    proof
      assume "k = e"
      then show ?thesis by simp
    next
      assume k: "k \<in> set (keep_new (entry_href e # seen) es)"
      then have "entry_href k \<notin> set (entry_href e # seen)" by (rule keep_new_unseen)
      then have "entry_href e \<noteq> entry_href k" by auto
      with Cons.IH [OF k] show ?thesis by simp
    qed
  qed
qed

lemma find_filter_conj: "find P (filter Q xs) = find (\<lambda>x. Q x \<and> P x) xs"
  by (induction xs) auto

lemma parse_results:
  assumes "nd body = Inr doc" and "parseTextHTMLSearchResponse nd body = Inr (rs, tok)"
  shows "rs = map result_of (keep_new [] (filter eligible (web_results doc)))"
  using assms foldl_parse_entry [of "[]" "[]" "web_results doc"]
  by (auto simp: parseTextHTMLSearchResponse_def Let_def split: if_splits)

lemma URL_result_of: "URL (result_of e) = entry_href e"
  by (simp add: result_of_def)

lemma parse_kept_urls:
  assumes "nd body = Inr doc" and "parseTextHTMLSearchResponse nd body = Inr (rs, tok)"
  shows "map URL rs = first_occurrences (map entry_href (filter eligible (web_results doc)))"
proof -
  have "map URL rs = map entry_href (keep_new [] (filter eligible (web_results doc)))"
    by (simp add: parse_results [OF assms] URL_result_of comp_def)
  then show ?thesis by (simp add: keep_new_hrefs)
qed

lemma parse_kept_first:
  assumes "nd body = Inr doc" and "parseTextHTMLSearchResponse nd body = Inr (rs, tok)"
    and "r \<in> set rs"
  shows "map_option result_of
           (find (\<lambda>e. eligible e \<and> entry_href e = URL r) (web_results doc)) = Some r"
proof -
  from assms(3) parse_results [OF assms(1,2)]
  obtain k where k: "k \<in> set (keep_new [] (filter eligible (web_results doc)))"
    and r: "r = result_of k"
    by auto
  from k have "find (\<lambda>e. entry_href e = entry_href k) (filter eligible (web_results doc)) = Some k"
    by (rule keep_new_first)
  then have "find (\<lambda>e. eligible e \<and> entry_href e = entry_href k) (web_results doc) = Some k"
    by (simp add: find_filter_conj)
  with r show ?thesis by (simp add: URL_result_of)
qed

text \<open>A page that repeats a url, holds a longer url starting with it, and a sponsored link.\<close>

definition result_a_more :: TextSearchResult where
  "result_a_more = \<lparr>Title = ''A more'', URL = ''https://a.example/more'', Summary = ''longer''\<rparr>"

definition page_repeat :: document where
  "page_repeat =
     last_page
       [entry ''https://a.example/'' ''A'' ''first'',
        entry ''https://a.example/more'' ''A more'' ''longer'',
        entry ''https://a.example/'' ''A again'' ''repeated'',
        entry ''https://duckduckgo.com/y.js?ad_domain=x'' ''Ad'' ''sponsored'',
        entry ''https://b.example/'' ''B'' ''second'']"


text \<open>
  The loop states of a call under a non-nil context, each with the results that the
  pages fetched so far returned, page by page.
\<close>

inductive loop_pages ::
  "'s runtime \<Rightarrow> 's client \<Rightarrow> nat option \<Rightarrow> TextSearchRequest \<Rightarrow> 's
     \<Rightarrow> TextSearchResult list list
     \<Rightarrow> Values \<Rightarrow> Values \<Rightarrow> TextSearchResult list \<Rightarrow> event list \<Rightarrow> 's \<Rightarrow> bool"
  for rt c d input w where
    no_pages:
      "Query input \<noteq> [] \<Longrightarrow> length (Query input) \<le> 500 \<Longrightarrow> 0 \<le> maxResults c
       \<Longrightarrow> GetRandom rt w = (ua, w0)
       \<Longrightarrow> loop_pages rt c d input w [] (buildTextHTMLRequestHeader ua)
             (buildTextHTMLRequestBody input (region c)) [] [] w0"
  | one_more:
      "loop_pages rt c d input w pages h b acc lg s
       \<Longrightarrow> doTextHTMLSearch rt c (DoneAt d) (post_request d h b) s = (Inr (rs, tok), s1)
       \<Longrightarrow> page rt c (DoneAt d) h b acc lg s = Continue b' acc' lg' s'
       \<Longrightarrow> loop_pages rt c d input w (pages @ [rs]) h b' acc' lg' s'"

lemma page_Continue_fetched:
  assumes "page rt c (DoneAt d) h b acc lg s = Continue b' acc' lg' s'"
  shows "\<exists>rs tok s1. doTextHTMLSearch rt c (DoneAt d) (post_request d h b) s = (Inr (rs, tok), s1)"
  using assms
  by (auto simp: page_def NewRequestWithContext_def post_request_def Let_def
      split: sum.splits prod.splits if_splits outcome.splits)

lemma page_Continue_appends:
  assumes "page rt c (DoneAt d) h b acc lg s = Continue b' acc' lg' s'"
    and "doTextHTMLSearch rt c (DoneAt d) (post_request d h b) s = (Inr (rs, tok), s1)"
  shows "acc' = acc @ rs"
  using assms
  by (auto simp: page_def NewRequestWithContext_def post_request_def Let_def
      split: sum.splits prod.splits if_splits outcome.splits)

lemma loop_pages_loop_state:
  "loop_pages rt c d input w pages h b acc lg s
   \<Longrightarrow> loop_state rt c (DoneAt d) input w h b acc lg s"
proof (induction rule: loop_pages.induct)
  case (no_pages ua w0)
  then show ?case by (rule first_pass)
next
  case (one_more pages h b acc lg s rs tok s1 b' acc' lg' s')
  from one_more.IH one_more.hyps(3) show ?case by (rule next_pass)
qed

lemma loop_pages_concat:
  "loop_pages rt c d input w pages h b acc lg s \<Longrightarrow> acc = concat pages"
proof (induction rule: loop_pages.induct)
  case (no_pages ua w0)
  show ?case by simp
next
  case (one_more pages h b acc lg s rs tok s1 b' acc' lg' s')
  from one_more.hyps(3,2) have "acc' = acc @ rs" by (rule page_Continue_appends)
  with one_more.IH show ?case by simp
qed

lemma loop_state_pages:
  "loop_state rt c ctx input w h b acc lg s \<Longrightarrow> ctx = DoneAt d
   \<Longrightarrow> \<exists>pages. loop_pages rt c d input w pages h b acc lg s"
proof (induction rule: loop_state.induct)
  case (first_pass ua w0)
  then have "loop_pages rt c d input w [] (buildTextHTMLRequestHeader ua)
             (buildTextHTMLRequestBody input (region c)) [] [] w0"
    by (intro no_pages)
  then show ?case by blast
next
  case (next_pass h b acc lg s b' acc' lg' s')
  then obtain pages where p: "loop_pages rt c d input w pages h b acc lg s" by blast
  from next_pass.hyps(2) next_pass.prems
  have pg: "page rt c (DoneAt d) h b acc lg s = Continue b' acc' lg' s'" by simp
  from page_Continue_fetched [OF pg] obtain rs tok s1
    where "doTextHTMLSearch rt c (DoneAt d) (post_request d h b) s = (Inr (rs, tok), s1)"
    by blast
  with p have "loop_pages rt c d input w (pages @ [rs]) h b' acc' lg' s'"
    using pg by (rule one_more)
  then show ?case by blast
qed

lemma loop_state_bounded:
  "loop_state rt c ctx input w h b acc lg s \<Longrightarrow> int (length acc) \<le> maxResults c"
proof (induction rule: loop_state.induct)
  case (first_pass ua w0)
  then show ?case by simp
next
  case (next_pass h b acc lg s b' acc' lg' s')
  from next_pass.hyps(2) have "int (length acc') < maxResults c" by (rule page_Continue_grows)
  then show ?case by simp
qed

lemma loop_pages_stop:
  assumes lp: "loop_pages rt c d input w pages h b acc lg s"
    and p: "doTextHTMLSearch rt c (DoneAt d) (post_request d h b) s = (Inr (rs, tok), s1)"
    and e: "rs = [] \<or> tok = [] \<or> maxResults c \<le> int (length (concat pages @ rs))"
  shows "TextSearch rt c (DoneAt d) input w
       = (Return (finish (take (nat (maxResults c)) (concat (pages @ [rs])))),
          lg @ [Sent (post_request d h b)], s1)"
proof -
  from lp have ls: "loop_state rt c (DoneAt d) input w h b acc lg s"
    by (rule loop_pages_loop_state)
  from lp have acc: "acc = concat pages" by (rule loop_pages_concat)
  from ls have m: "0 \<le> maxResults c" by (rule loop_state_maxResults)
  from ls have bd: "int (length acc) \<le> maxResults c" by (rule loop_state_bounded)
  from e acc have e': "rs = [] \<or> tok = [] \<or> maxResults c \<le> int (length (acc @ rs))" by simp
  have k: "(if rs = [] then acc else take (nat (maxResults c)) (acc @ rs))
      = take (nat (maxResults c)) (concat (pages @ [rs]))"
    using bd acc by simp
  have "TextSearch rt c (DoneAt d) input w = paginate rt c (DoneAt d) h b acc lg s"
    using ls by (rule loop_state_paginate)
  also have "\<dots> = (Return (finish (if rs = [] then acc else take (nat (maxResults c)) (acc @ rs))),
          lg @ [Sent (post_request d h b)], s1)"
    using p m e' by (rule paginate_stop)
  finally show ?thesis by (simp only: k)
qed

section \<open>Claims\<close>

text \<open>
  Claim C7. Query validation comes before any network activity. For every request with
  an empty query \<open>TextSearch\<close> returns an error outcome whose message contains
  "query is required", with no results; for every request whose query is longer than 500
  it returns an error outcome whose message contains "too long", with no results. In both
  cases the trace is empty and the world is untouched: no request was sent.
\<close>

theorem validation_short_circuits:
  "(Query input = [] \<longrightarrow>
      (\<exists>msg. TextSearch rt c ctx input s
                = (Return \<lparr>Message = [], Results = [], ErrorMessage = msg\<rparr>, [], s)
         \<and> Contains msg ''query is required''))
   \<and> (500 < length (Query input) \<longrightarrow>
      (\<exists>msg. TextSearch rt c ctx input s
                = (Return \<lparr>Message = [], Results = [], ErrorMessage = msg\<rparr>, [], s)
         \<and> Contains msg ''too long''))"
proof (intro conjI impI)
  assume "Query input = []"
  then show "\<exists>msg. TextSearch rt c ctx input s
                = (Return \<lparr>Message = [], Results = [], ErrorMessage = msg\<rparr>, [], s)
         \<and> Contains msg ''query is required''"
    using Contains_required by (simp only: TextSearch_empty_query error_response_def) blast
next
  assume "500 < length (Query input)"
  then show "\<exists>msg. TextSearch rt c ctx input s
                = (Return \<lparr>Message = [], Results = [], ErrorMessage = msg\<rparr>, [], s)
         \<and> Contains msg ''too long''"
    using Contains_too_long by (simp only: TextSearch_long_query error_response_def) blast
qed

theorem validation_short_circuits_witness:
  "(\<exists>msg. TextSearch (script_runtime two_pages)
             (script_client [ok_response ''p1'', ok_response ''p2''] 5 RegionWT) (DoneAt None)
             \<lparr>Query = [], TimeRange = []\<rparr> world0
           = (Return \<lparr>Message = [], Results = [], ErrorMessage = msg\<rparr>, [], world0)
       \<and> Contains msg ''query is required'')
   \<and> (\<exists>msg. TextSearch (script_runtime two_pages)
             (script_client [ok_response ''p1'', ok_response ''p2''] 5 RegionWT) (DoneAt None)
             \<lparr>Query = replicate 501 (CHR ''a''), TimeRange = []\<rparr> world0
           = (Return \<lparr>Message = [], Results = [], ErrorMessage = msg\<rparr>, [], world0)
       \<and> Contains msg ''too long'')"
proof -
  have a: "Query \<lparr>Query = [], TimeRange = []\<rparr> = []" by simp
  have b: "500 < length (Query \<lparr>Query = replicate 501 (CHR ''a''), TimeRange = []\<rparr>)" by simp
  from a b
    validation_short_circuits [of "\<lparr>Query = [], TimeRange = []\<rparr>" "script_runtime two_pages"
      "script_client [ok_response ''p1'', ok_response ''p2''] 5 RegionWT" "DoneAt None" world0]
    validation_short_circuits [of "\<lparr>Query = replicate 501 (CHR ''a''), TimeRange = []\<rparr>"
      "script_runtime two_pages"
      "script_client [ok_response ''p1'', ok_response ''p2''] 5 RegionWT" "DoneAt None" world0]
  show ?thesis by blast
qed

text \<open>
  Claim C9. For every query and region the initial request body has exactly the keys
  \<open>q\<close> (the query text), \<open>b\<close> (empty), \<open>kl\<close> (the region code, empty for the world
  region \<open>wt-wt\<close>) and \<open>df\<close> (the code \<open>d\<close>, \<open>w\<close>, \<open>m\<close> or \<open>y\<close> of the time range,
  and the empty string for "any").
\<close>

theorem initial_request_body:
  "buildTextHTMLRequestBody t r =
     [(''q'', [Query t]),
      (''b'', [[]]),
      (''kl'', [if r = ''wt-wt'' then [] else r]),
      (''df'', [if TimeRange t = ''d'' then ''d'' else if TimeRange t = ''w'' then ''w''
                else if TimeRange t = ''m'' then ''m'' else if TimeRange t = ''y'' then ''y''
                else []])]"
  by (simp add: buildTextHTMLRequestBody_def Let_def RegionWT_def TimeRangeDay_def
      TimeRangeWeek_def TimeRangeMonth_def TimeRangeYear_def TimeRangeAny_def)

text \<open>
  Claim C10. The length check counts UTF-8 bytes, not characters: the query of 200 copies
  of a three-byte CJK character has 200 characters and 600 bytes, and \<open>TextSearch\<close>
  returns the "too long" error outcome for it without sending a request.
\<close>

theorem query_length_counts_bytes:
  "RuneCountInString (concat (replicate 200 zhong)) = 200
   \<and> length (concat (replicate 200 zhong)) = 600
   \<and> TextSearch rt c ctx \<lparr>Query = concat (replicate 200 zhong), TimeRange = tr\<rparr> s
       = (Return \<lparr>Message = [], Results = [],
            ErrorMessage = ''search query is too long (max 500 characters), please shorten your query''\<rparr>,
          [], s)"
proof -
  define q where "q = concat (replicate 200 zhong)"
  have len: "length q = 600"
    unfolding q_def by (simp only: length_repeat) (simp add: zhong_def)
  have cnt: "RuneCountInString q = 200"
    unfolding q_def by (rule rune_count_repeat_zhong)
  have "500 < length (Query \<lparr>Query = q, TimeRange = tr\<rparr>)"
    using len by simp
  then have "TextSearch rt c ctx \<lparr>Query = q, TimeRange = tr\<rparr> s
       = (Return \<lparr>Message = [], Results = [],
            ErrorMessage = ''search query is too long (max 500 characters), please shorten your query''\<rparr>,
          [], s)"
    by (simp only: TextSearch_long_query error_response_def)
  with len cnt show ?thesis unfolding q_def by blast
qed


text \<open>
  Claim C1. Every success outcome of \<open>TextSearch\<close> (one with no error message) carries
  at most \<open>maxResults\<close> results. At any pass of the loop of any call, when the page's
  records bring the accumulated ones to \<open>maxResults\<close> or beyond, the call ends there, with
  no further request, returning exactly the first \<open>maxResults\<close> accumulated records.
\<close>

theorem results_within_maxResults:
  "(fst (TextSearch rt c ctx input w) = Return resp \<and> ErrorMessage resp = []
      \<longrightarrow> int (length (Results resp)) \<le> maxResults c)
   \<and> (loop_state rt c (DoneAt d) input w h b acc lg s
        \<and> doTextHTMLSearch rt c (DoneAt d) (post_request d h b) s = (Inr (rs, tok), s1)
        \<and> rs \<noteq> [] \<and> maxResults c \<le> int (length (acc @ rs))
      \<longrightarrow> TextSearch rt c (DoneAt d) input w
            = (Return (finish (take (nat (maxResults c)) (acc @ rs))),
               lg @ [Sent (post_request d h b)], s1)
          \<and> Results (finish (take (nat (maxResults c)) (acc @ rs)))
            = take (nat (maxResults c)) (acc @ rs)
          \<and> int (length (take (nat (maxResults c)) (acc @ rs))) = maxResults c)"
proof (intro conjI impI)
  assume a: "fst (TextSearch rt c ctx input w) = Return resp \<and> ErrorMessage resp = []"
  then have "TextSearch rt c ctx input w
      = (Return resp, fst (snd (TextSearch rt c ctx input w)), snd (snd (TextSearch rt c ctx input w)))"
    by (metis prod.collapse)
  with a show "int (length (Results resp)) \<le> maxResults c"
    by (blast intro: TextSearch_bounded)
next
  assume a: "loop_state rt c (DoneAt d) input w h b acc lg s
        \<and> doTextHTMLSearch rt c (DoneAt d) (post_request d h b) s = (Inr (rs, tok), s1)
        \<and> rs \<noteq> [] \<and> maxResults c \<le> int (length (acc @ rs))"
  then have ls: "loop_state rt c (DoneAt d) input w h b acc lg s" by blast
  then have m: "0 \<le> maxResults c" by (rule loop_state_maxResults)
  from a m have "paginate rt c (DoneAt d) h b acc lg s
       = (Return (finish (if rs = [] then acc else take (nat (maxResults c)) (acc @ rs))),
          lg @ [Sent (post_request d h b)], s1)"
    by (intro paginate_stop) simp_all
  with a show "TextSearch rt c (DoneAt d) input w
            = (Return (finish (take (nat (maxResults c)) (acc @ rs))),
               lg @ [Sent (post_request d h b)], s1)"
    by (simp add: loop_state_paginate [OF ls] del: take_append)
next
  show "Results (finish (take (nat (maxResults c)) (acc @ rs)))
            = take (nat (maxResults c)) (acc @ rs)"
    by (rule Results_finish)
next
  assume a: "loop_state rt c (DoneAt d) input w h b acc lg s
        \<and> doTextHTMLSearch rt c (DoneAt d) (post_request d h b) s = (Inr (rs, tok), s1)
        \<and> rs \<noteq> [] \<and> maxResults c \<le> int (length (acc @ rs))"
  then have "loop_state rt c (DoneAt d) input w h b acc lg s" by blast
  then have m: "0 \<le> maxResults c" by (rule loop_state_maxResults)
  with a have "nat (maxResults c) \<le> length (acc @ rs)" by linarith
  then have "length (take (nat (maxResults c)) (acc @ rs)) = nat (maxResults c)"
    by (simp only: length_take min_absorb2)
  with m show "int (length (take (nat (maxResults c)) (acc @ rs))) = maxResults c"
    by (simp only: nat_0_le)
qed

theorem results_within_maxResults_witness:
  "fst (TextSearch (script_runtime two_pages)
          (script_client [ok_response ''p1'', ok_response ''p2''] 3 RegionWT) (DoneAt None)
          go_query world0)
     = Return (finish [result_a, result_b, result_c])
   \<and> ErrorMessage (finish [result_a, result_b, result_c]) = []
   \<and> int (length (Results (finish [result_a, result_b, result_c])))
       \<le> maxResults (script_client [ok_response ''p1'', ok_response ''p2''] 3 RegionWT)
   \<and> loop_state (script_runtime two_pages)
          (script_client [ok_response ''p1'', ok_response ''p2''] 3 RegionWT) (DoneAt None)
          go_query world0 go_header token_one [result_a, result_b]
          [Sent (post_request None go_header (buildTextHTMLRequestBody go_query RegionWT)),
           Waited 3] \<lparr>clock = 3, served = 1\<rparr>
   \<and> doTextHTMLSearch (script_runtime two_pages)
          (script_client [ok_response ''p1'', ok_response ''p2''] 3 RegionWT) (DoneAt None)
          (post_request None go_header token_one) \<lparr>clock = 3, served = 1\<rparr>
       = (Inr ([result_c, result_a], []), \<lparr>clock = 3, served = 2\<rparr>)
   \<and> TextSearch (script_runtime two_pages)
          (script_client [ok_response ''p1'', ok_response ''p2''] 3 RegionWT) (DoneAt None)
          go_query world0
       = (Return (finish [result_a, result_b, result_c]),
          [Sent (post_request None go_header (buildTextHTMLRequestBody go_query RegionWT)),
           Waited 3, Sent (post_request None go_header token_one)],
          \<lparr>clock = 3, served = 2\<rparr>)"
proof -
  let ?rt = "script_runtime two_pages"
  let ?c = "script_client [ok_response ''p1'', ok_response ''p2''] 3 RegionWT"
  let ?r1 = "post_request None go_header (buildTextHTMLRequestBody go_query RegionWT)"
  have a: "fst (TextSearch ?rt ?c (DoneAt None) go_query world0)
     = Return (finish [result_a, result_b, result_c])"
    by code_simp
  have b: "ErrorMessage (finish [result_a, result_b, result_c]) = []"
    by (rule ErrorMessage_finish)
  have "loop_state ?rt ?c (DoneAt None) go_query world0 (buildTextHTMLRequestHeader ''Mozilla/5.0'')
          (buildTextHTMLRequestBody go_query (region ?c)) [] [] world0"
    by (rule first_pass) (simp_all add: go_query_def script_client_def script_runtime_def)
  then have l0: "loop_state ?rt ?c (DoneAt None) go_query world0 go_header
          (buildTextHTMLRequestBody go_query RegionWT) [] [] world0"
    by (simp add: go_header_def script_client_def)
  have "page ?rt ?c (DoneAt None) go_header (buildTextHTMLRequestBody go_query RegionWT) [] [] world0
      = Continue token_one [result_a, result_b] [Sent ?r1, Waited 3] \<lparr>clock = 3, served = 1\<rparr>"
    by code_simp
  with l0 have l1: "loop_state ?rt ?c (DoneAt None) go_query world0 go_header token_one
          [result_a, result_b] [Sent ?r1, Waited 3] \<lparr>clock = 3, served = 1\<rparr>"
    by (rule next_pass)
  have p: "doTextHTMLSearch ?rt ?c (DoneAt None)
          (post_request None go_header token_one) \<lparr>clock = 3, served = 1\<rparr>
       = (Inr ([result_c, result_a], []), \<lparr>clock = 3, served = 2\<rparr>)"
    by code_simp
  have m: "[result_c, result_a] \<noteq> []"
    "maxResults ?c \<le> int (length ([result_a, result_b] @ [result_c, result_a]))"
    by (simp_all add: script_client_def)
  have t: "take (nat (maxResults ?c)) ([result_a, result_b] @ [result_c, result_a])
      = [result_a, result_b, result_c]"
    by (simp add: script_client_def)
  note inst = results_within_maxResults
    [of ?rt ?c "DoneAt None" go_query world0 "finish [result_a, result_b, result_c]"
        None go_header token_one "[result_a, result_b]" "[Sent ?r1, Waited 3]"
        "\<lparr>clock = 3, served = 1\<rparr>" "[result_c, result_a]" "[]" "\<lparr>clock = 3, served = 2\<rparr>",
     unfolded t]
  from inst a b
  have x: "int (length (Results (finish [result_a, result_b, result_c]))) \<le> maxResults ?c"
    by blast
  from inst l1 p m have "TextSearch ?rt ?c (DoneAt None) go_query world0
       = (Return (finish [result_a, result_b, result_c]),
          [Sent ?r1, Waited 3] @ [Sent (post_request None go_header token_one)],
          \<lparr>clock = 3, served = 2\<rparr>)"
    by blast
  then have y: "TextSearch ?rt ?c (DoneAt None) go_query world0
       = (Return (finish [result_a, result_b, result_c]),
          [Sent ?r1, Waited 3, Sent (post_request None go_header token_one)],
          \<lparr>clock = 3, served = 2\<rparr>)"
    by (simp only: append_Cons append_Nil)
  from a b x l1 p y show ?thesis by blast
qed

text \<open>
  Claim C2. At any pass of the loop of any call, the first as well as a continuation pass
  that earlier pages reached with results accumulated, a failure of the page's request (a
  transport, status, read or parse error of \<open>doTextHTMLSearch\<close>) makes the call return an
  error outcome: a non-empty error message, no status message and no results.
\<close>

theorem failed_page_discards_results:
  "loop_state rt c (DoneAt d) input w h b acc lg s
     \<and> doTextHTMLSearch rt c (DoneAt d) (post_request d h b) s = (Inl e, s1)
   \<longrightarrow> TextSearch rt c (DoneAt d) input w
         = (Return \<lparr>Message = [], Results = [], ErrorMessage = failure_message e\<rparr>,
            lg @ [Sent (post_request d h b)], s1)
       \<and> failure_message e \<noteq> []"
proof (intro conjI impI)
  assume a: "loop_state rt c (DoneAt d) input w h b acc lg s
     \<and> doTextHTMLSearch rt c (DoneAt d) (post_request d h b) s = (Inl e, s1)"
  then have ls: "loop_state rt c (DoneAt d) input w h b acc lg s" by blast
  from a have "paginate rt c (DoneAt d) h b acc lg s
       = (Return (error_response (failure_message e)), lg @ [Sent (post_request d h b)], s1)"
    by (blast intro: paginate_error)
  then show "TextSearch rt c (DoneAt d) input w
         = (Return \<lparr>Message = [], Results = [], ErrorMessage = failure_message e\<rparr>,
            lg @ [Sent (post_request d h b)], s1)"
    by (simp only: loop_state_paginate [OF ls] error_response_def)
next
  show "failure_message e \<noteq> []" by (rule failure_message_nonempty)
qed

text \<open>
  A first page with two results and a continuation token, then status 500 on the second
  page: the two results are discarded.
\<close>

theorem failed_page_discards_results_witness:
  "loop_state (script_runtime two_pages)
       (script_client [ok_response ''p1'', status_response 500] 10 RegionWT) (DoneAt None)
       go_query world0 go_header token_one [result_a, result_b]
       [Sent (post_request None go_header (buildTextHTMLRequestBody go_query RegionWT)),
        Waited 3] \<lparr>clock = 3, served = 1\<rparr>
   \<and> doTextHTMLSearch (script_runtime two_pages)
       (script_client [ok_response ''p1'', status_response 500] 10 RegionWT) (DoneAt None)
       (post_request None go_header token_one) \<lparr>clock = 3, served = 1\<rparr>
     = (Inl (UpstreamError 500), \<lparr>clock = 3, served = 2\<rparr>)
   \<and> TextSearch (script_runtime two_pages)
       (script_client [ok_response ''p1'', status_response 500] 10 RegionWT) (DoneAt None)
       go_query world0
     = (Return \<lparr>Message = [], Results = [], ErrorMessage = failure_message (UpstreamError 500)\<rparr>,
        [Sent (post_request None go_header (buildTextHTMLRequestBody go_query RegionWT)),
         Waited 3, Sent (post_request None go_header token_one)], \<lparr>clock = 3, served = 2\<rparr>)"
proof -
  let ?rt = "script_runtime two_pages"
  let ?c = "script_client [ok_response ''p1'', status_response 500] 10 RegionWT"
  let ?r1 = "post_request None go_header (buildTextHTMLRequestBody go_query RegionWT)"
  have "loop_state ?rt ?c (DoneAt None) go_query world0 (buildTextHTMLRequestHeader ''Mozilla/5.0'')
          (buildTextHTMLRequestBody go_query (region ?c)) [] [] world0"
    by (rule first_pass) (simp_all add: go_query_def script_client_def script_runtime_def)
  then have l0: "loop_state ?rt ?c (DoneAt None) go_query world0 go_header
          (buildTextHTMLRequestBody go_query RegionWT) [] [] world0"
    by (simp add: go_header_def script_client_def)
  have "page ?rt ?c (DoneAt None) go_header (buildTextHTMLRequestBody go_query RegionWT) [] [] world0
      = Continue token_one [result_a, result_b] [Sent ?r1, Waited 3] \<lparr>clock = 3, served = 1\<rparr>"
    by code_simp
  with l0 have l1: "loop_state ?rt ?c (DoneAt None) go_query world0 go_header token_one
          [result_a, result_b] [Sent ?r1, Waited 3] \<lparr>clock = 3, served = 1\<rparr>"
    by (rule next_pass)
  have p2: "doTextHTMLSearch ?rt ?c (DoneAt None)
       (post_request None go_header token_one) \<lparr>clock = 3, served = 1\<rparr>
     = (Inl (UpstreamError 500), \<lparr>clock = 3, served = 2\<rparr>)"
    by code_simp
  from failed_page_discards_results
    [of ?rt ?c None go_query world0 go_header token_one "[result_a, result_b]"
        "[Sent ?r1, Waited 3]" "\<lparr>clock = 3, served = 1\<rparr>" "UpstreamError 500"
        "\<lparr>clock = 3, served = 2\<rparr>"] l1 p2
  have "TextSearch ?rt ?c (DoneAt None) go_query world0
     = (Return \<lparr>Message = [], Results = [], ErrorMessage = failure_message (UpstreamError 500)\<rparr>,
        [Sent ?r1, Waited 3] @ [Sent (post_request None go_header token_one)],
        \<lparr>clock = 3, served = 2\<rparr>)"
    by blast
  then have y: "TextSearch ?rt ?c (DoneAt None) go_query world0
     = (Return \<lparr>Message = [], Results = [], ErrorMessage = failure_message (UpstreamError 500)\<rparr>,
        [Sent ?r1, Waited 3, Sent (post_request None go_header token_one)],
        \<lparr>clock = 3, served = 2\<rparr>)"
    by (simp only: append_Cons append_Nil)
  from l1 p2 y show ?thesis by blast
qed

text \<open>
  Claim C8. A page without the "more results" navigation parses to an empty continuation
  token, and at any pass of the loop of any call a successful page whose token is empty
  ends the call there: the outcome is the success outcome over the results accumulated
  (this page's included, cut to \<open>maxResults\<close>; a page without records adds nothing), and
  the request of this page is the last one of the trace.
\<close>

theorem empty_token_ends_pagination:
  "(nd body = Inr doc \<and> nav_links doc = []
      \<longrightarrow> (\<exists>rs. parseTextHTMLSearchResponse nd body = Inr (rs, [])))
   \<and> (loop_state rt c (DoneAt d) input w h b acc lg s
        \<and> doTextHTMLSearch rt c (DoneAt d) (post_request d h b) s = (Inr (rs, []), s1)
      \<longrightarrow> TextSearch rt c (DoneAt d) input w
            = (Return (finish (if rs = [] then acc else take (nat (maxResults c)) (acc @ rs))),
               lg @ [Sent (post_request d h b)], s1)
          \<and> ErrorMessage (finish (if rs = [] then acc else take (nat (maxResults c)) (acc @ rs))) = []
          \<and> Results (finish (if rs = [] then acc else take (nat (maxResults c)) (acc @ rs)))
            = (if rs = [] then acc else take (nat (maxResults c)) (acc @ rs)))"
proof (intro conjI impI)
  assume "nd body = Inr doc \<and> nav_links doc = []"
  then show "\<exists>rs. parseTextHTMLSearchResponse nd body = Inr (rs, [])"
    by (blast dest: parse_no_nav)
next
  assume a: "loop_state rt c (DoneAt d) input w h b acc lg s
        \<and> doTextHTMLSearch rt c (DoneAt d) (post_request d h b) s = (Inr (rs, []), s1)"
  then have ls: "loop_state rt c (DoneAt d) input w h b acc lg s" by blast
  then have m: "0 \<le> maxResults c" by (rule loop_state_maxResults)
  from a have p: "doTextHTMLSearch rt c (DoneAt d) (post_request d h b) s = (Inr (rs, []), s1)"
    by blast
  have t: "rs = [] \<or> ([] :: Values) = [] \<or> maxResults c \<le> int (length (acc @ rs))"
    by simp
  from p m t have "paginate rt c (DoneAt d) h b acc lg s
            = (Return (finish (if rs = [] then acc else take (nat (maxResults c)) (acc @ rs))),
               lg @ [Sent (post_request d h b)], s1)"
    by (rule paginate_stop)
  then show "TextSearch rt c (DoneAt d) input w
            = (Return (finish (if rs = [] then acc else take (nat (maxResults c)) (acc @ rs))),
               lg @ [Sent (post_request d h b)], s1)"
    by (simp only: loop_state_paginate [OF ls])
next
  show "ErrorMessage (finish (if rs = [] then acc else take (nat (maxResults c)) (acc @ rs))) = []"
    by (rule ErrorMessage_finish)
next
  show "Results (finish (if rs = [] then acc else take (nat (maxResults c)) (acc @ rs)))
            = (if rs = [] then acc else take (nat (maxResults c)) (acc @ rs))"
    by (rule Results_finish)
qed

theorem empty_token_ends_pagination_witness:
  "NewDocumentFromReader (script_runtime two_pages) ''p2'' = Inr page_two
   \<and> nav_links page_two = []
   \<and> (\<exists>rs. parseTextHTMLSearchResponse (NewDocumentFromReader (script_runtime two_pages)) ''p2''
             = Inr (rs, []))
   \<and> loop_state (script_runtime two_pages)
       (script_client [ok_response ''p1'', ok_response ''p2''] 10 RegionWT) (DoneAt None)
       go_query world0 go_header token_one [result_a, result_b]
       [Sent (post_request None go_header (buildTextHTMLRequestBody go_query RegionWT)),
        Waited 3] \<lparr>clock = 3, served = 1\<rparr>
   \<and> doTextHTMLSearch (script_runtime two_pages)
          (script_client [ok_response ''p1'', ok_response ''p2''] 10 RegionWT) (DoneAt None)
          (post_request None go_header token_one) \<lparr>clock = 3, served = 1\<rparr>
       = (Inr ([result_c, result_a], []), \<lparr>clock = 3, served = 2\<rparr>)
   \<and> TextSearch (script_runtime two_pages)
          (script_client [ok_response ''p1'', ok_response ''p2''] 10 RegionWT) (DoneAt None)
          go_query world0
       = (Return (finish [result_a, result_b, result_c, result_a]),
          [Sent (post_request None go_header (buildTextHTMLRequestBody go_query RegionWT)),
           Waited 3, Sent (post_request None go_header token_one)],
          \<lparr>clock = 3, served = 2\<rparr>)"
proof -
  let ?rt = "script_runtime two_pages"
  let ?c = "script_client [ok_response ''p1'', ok_response ''p2''] 10 RegionWT"
  let ?r1 = "post_request None go_header (buildTextHTMLRequestBody go_query RegionWT)"
  have d: "NewDocumentFromReader ?rt ''p2'' = Inr page_two"
    by (simp add: script_runtime_def two_pages_def)
  have n: "nav_links page_two = []"
    by (simp add: page_two_def last_page_def)
  have "loop_state ?rt ?c (DoneAt None) go_query world0 (buildTextHTMLRequestHeader ''Mozilla/5.0'')
          (buildTextHTMLRequestBody go_query (region ?c)) [] [] world0"
    by (rule first_pass) (simp_all add: go_query_def script_client_def script_runtime_def)
  then have l0: "loop_state ?rt ?c (DoneAt None) go_query world0 go_header
          (buildTextHTMLRequestBody go_query RegionWT) [] [] world0"
    by (simp add: go_header_def script_client_def)
  have "page ?rt ?c (DoneAt None) go_header (buildTextHTMLRequestBody go_query RegionWT) [] [] world0
      = Continue token_one [result_a, result_b] [Sent ?r1, Waited 3] \<lparr>clock = 3, served = 1\<rparr>"
    by code_simp
  with l0 have l1: "loop_state ?rt ?c (DoneAt None) go_query world0 go_header token_one
          [result_a, result_b] [Sent ?r1, Waited 3] \<lparr>clock = 3, served = 1\<rparr>"
    by (rule next_pass)
  have p: "doTextHTMLSearch ?rt ?c (DoneAt None) (post_request None go_header token_one)
          \<lparr>clock = 3, served = 1\<rparr>
       = (Inr ([result_c, result_a], []), \<lparr>clock = 3, served = 2\<rparr>)"
    by code_simp
  have t: "(if [result_c, result_a] = [] then [result_a, result_b]
            else take (nat (maxResults ?c)) ([result_a, result_b] @ [result_c, result_a]))
           = [result_a, result_b, result_c, result_a]"
    by (simp add: script_client_def)
  note inst = empty_token_ends_pagination
    [of "NewDocumentFromReader ?rt" "''p2''" page_two ?rt ?c None go_query world0 go_header
        token_one "[result_a, result_b]" "[Sent ?r1, Waited 3]" "\<lparr>clock = 3, served = 1\<rparr>"
        "[result_c, result_a]" "\<lparr>clock = 3, served = 2\<rparr>", unfolded t]
  from inst d n
  have x: "\<exists>rs. parseTextHTMLSearchResponse (NewDocumentFromReader ?rt) ''p2'' = Inr (rs, [])"
    by blast
  from inst l1 p have "TextSearch ?rt ?c (DoneAt None) go_query world0
       = (Return (finish [result_a, result_b, result_c, result_a]),
          [Sent ?r1, Waited 3] @ [Sent (post_request None go_header token_one)],
          \<lparr>clock = 3, served = 2\<rparr>)"
    by blast
  then have y: "TextSearch ?rt ?c (DoneAt None) go_query world0
       = (Return (finish [result_a, result_b, result_c, result_a]),
          [Sent ?r1, Waited 3, Sent (post_request None go_header token_one)],
          \<lparr>clock = 3, served = 2\<rparr>)"
    by (simp only: append_Cons append_Nil)
  from d n x l1 p y show ?thesis by blast
qed





text \<open>
  Claim C6, as amended. The parser removes duplicates by url within the page it parses
  only. The urls it returns for a page are the urls of the page's eligible entries, each
  once, in the order of their first appearance, and the result of a url is built from the
  first eligible entry with that url; nothing of another page enters. The driver removes
  nothing: every loop state of a call holds the concatenation of the results the pages
  fetched so far returned, a page that does not end the call is appended as it is, and a
  call that ends with a successful page returns this concatenation, the last page
  included, cut to its first \<open>maxResults\<close> records. A url on two pages is present twice
  unless this cut removes the later occurrence.
\<close>

theorem dedup_is_page_local:
  "(nd body = Inr doc \<and> parseTextHTMLSearchResponse nd body = Inr (rs, tok)
      \<longrightarrow> map URL rs = first_occurrences (map entry_href (filter eligible (web_results doc)))
          \<and> (\<forall>r \<in> set rs.
                map_option result_of
                  (find (\<lambda>e. eligible e \<and> entry_href e = URL r) (web_results doc)) = Some r))
   \<and> (loop_state rt c (DoneAt d) input w h b acc lg s
      \<longrightarrow> (\<exists>pages. loop_pages rt c d input w pages h b acc lg s \<and> acc = concat pages))
   \<and> (loop_pages rt c d input w pages h b acc lg s
        \<and> doTextHTMLSearch rt c (DoneAt d) (post_request d h b) s = (Inr (rs2, tok2), s1)
        \<and> rs2 \<noteq> [] \<and> tok2 \<noteq> [] \<and> int (length (concat pages @ rs2)) < maxResults c
      \<longrightarrow> loop_pages rt c d input w (pages @ [rs2]) h tok2 (concat (pages @ [rs2]))
            (lg @ [Sent (post_request d h b), Waited 3]) (After rt 3 s1))
   \<and> (loop_pages rt c d input w pages h b acc lg s
        \<and> doTextHTMLSearch rt c (DoneAt d) (post_request d h b) s = (Inr (rs2, tok2), s1)
        \<and> (rs2 = [] \<or> tok2 = [] \<or> maxResults c \<le> int (length (concat pages @ rs2)))
      \<longrightarrow> TextSearch rt c (DoneAt d) input w
            = (Return (finish (take (nat (maxResults c)) (concat (pages @ [rs2])))),
               lg @ [Sent (post_request d h b)], s1)
          \<and> Results (finish (take (nat (maxResults c)) (concat (pages @ [rs2]))))
            = take (nat (maxResults c)) (concat (pages @ [rs2])))"
proof (intro conjI impI ballI)
  assume a: "nd body = Inr doc \<and> parseTextHTMLSearchResponse nd body = Inr (rs, tok)"
  then have nd: "nd body = Inr doc"
    and ps: "parseTextHTMLSearchResponse nd body = Inr (rs, tok)"
    by blast+
  from nd ps
  show "map URL rs = first_occurrences (map entry_href (filter eligible (web_results doc)))"
    by (rule parse_kept_urls)
  fix r
  assume "r \<in> set rs"
  with nd ps show "map_option result_of
                  (find (\<lambda>e. eligible e \<and> entry_href e = URL r) (web_results doc)) = Some r"
    by (rule parse_kept_first)
next
  assume "loop_state rt c (DoneAt d) input w h b acc lg s"
  from loop_state_pages [OF this refl]
  obtain pages where lp: "loop_pages rt c d input w pages h b acc lg s"
    by blast
  from lp have "acc = concat pages" by (rule loop_pages_concat)
  with lp show "\<exists>pages. loop_pages rt c d input w pages h b acc lg s \<and> acc = concat pages"
    by (intro exI conjI)
next
  assume a: "loop_pages rt c d input w pages h b acc lg s
        \<and> doTextHTMLSearch rt c (DoneAt d) (post_request d h b) s = (Inr (rs2, tok2), s1)
        \<and> rs2 \<noteq> [] \<and> tok2 \<noteq> [] \<and> int (length (concat pages @ rs2)) < maxResults c"
  then have lp: "loop_pages rt c d input w pages h b acc lg s"
    and p: "doTextHTMLSearch rt c (DoneAt d) (post_request d h b) s = (Inr (rs2, tok2), s1)"
    by blast+
  from lp have acc: "acc = concat pages" by (rule loop_pages_concat)
  from a acc have "page rt c (DoneAt d) h b acc lg s
       = Continue tok2 (acc @ rs2) (lg @ [Sent (post_request d h b), Waited 3]) (After rt 3 s1)"
    by (intro page_more) simp_all
  with lp p have "loop_pages rt c d input w (pages @ [rs2]) h tok2 (acc @ rs2)
            (lg @ [Sent (post_request d h b), Waited 3]) (After rt 3 s1)"
    by (rule one_more)
  with acc show "loop_pages rt c d input w (pages @ [rs2]) h tok2 (concat (pages @ [rs2]))
            (lg @ [Sent (post_request d h b), Waited 3]) (After rt 3 s1)"
    by simp
next
  assume a: "loop_pages rt c d input w pages h b acc lg s
        \<and> doTextHTMLSearch rt c (DoneAt d) (post_request d h b) s = (Inr (rs2, tok2), s1)
        \<and> (rs2 = [] \<or> tok2 = [] \<or> maxResults c \<le> int (length (concat pages @ rs2)))"
  show "TextSearch rt c (DoneAt d) input w
            = (Return (finish (take (nat (maxResults c)) (concat (pages @ [rs2])))),
               lg @ [Sent (post_request d h b)], s1)"
    by (rule loop_pages_stop) (use a in blast)+
next
  show "Results (finish (take (nat (maxResults c)) (concat (pages @ [rs2]))))
            = take (nat (maxResults c)) (concat (pages @ [rs2]))"
    by (rule Results_finish)
qed

text \<open>
  A page that repeats the url of its first entry keeps the first entry only, and keeps the
  entry whose longer url starts with it. With room for both pages of the conversation the
  url of \<open>result_a\<close>, on both pages, is returned twice.
\<close>

theorem dedup_is_page_local_witness:
  "parseTextHTMLSearchResponse (NewDocumentFromReader (script_runtime [(''r'', page_repeat)])) ''r''
     = Inr ([result_a, result_a_more, result_b], [])
   \<and> first_occurrences (map entry_href (filter eligible (web_results page_repeat)))
     = [''https://a.example/'', ''https://a.example/more'', ''https://b.example/'']
   \<and> map_option result_of
        (find (\<lambda>e. eligible e \<and> entry_href e = ''https://a.example/'') (web_results page_repeat))
     = Some result_a
   \<and> loop_pages (script_runtime two_pages)
       (script_client [ok_response ''p1'', ok_response ''p2''] 10 RegionWT) None
       go_query world0 [[result_a, result_b]] go_header token_one [result_a, result_b]
       [Sent (post_request None go_header (buildTextHTMLRequestBody go_query RegionWT)),
        Waited 3] \<lparr>clock = 3, served = 1\<rparr>
   \<and> TextSearch (script_runtime two_pages)
       (script_client [ok_response ''p1'', ok_response ''p2''] 10 RegionWT) (DoneAt None)
       go_query world0
     = (Return (finish [result_a, result_b, result_c, result_a]),
        [Sent (post_request None go_header (buildTextHTMLRequestBody go_query RegionWT)),
         Waited 3, Sent (post_request None go_header token_one)], \<lparr>clock = 3, served = 2\<rparr>)
   \<and> Results (finish [result_a, result_b, result_c, result_a])
     = [result_a, result_b, result_c, result_a]"
proof -
  let ?rt = "script_runtime two_pages"
  let ?c = "script_client [ok_response ''p1'', ok_response ''p2''] 10 RegionWT"
  let ?r1 = "post_request None go_header (buildTextHTMLRequestBody go_query RegionWT)"
  let ?nd = "NewDocumentFromReader (script_runtime [(''r'', page_repeat)])"
  have nd: "?nd ''r'' = Inr page_repeat"
    by (simp add: script_runtime_def)
  have ps: "parseTextHTMLSearchResponse ?nd ''r'' = Inr ([result_a, result_a_more, result_b], [])"
    by code_simp
  have urls: "map URL [result_a, result_a_more, result_b]
      = [''https://a.example/'', ''https://a.example/more'', ''https://b.example/'']"
    by (simp add: result_a_def result_a_more_def result_b_def)
  have ua: "URL result_a = ''https://a.example/''" by (simp add: result_a_def)
  note parser = dedup_is_page_local
    [of ?nd "''r''" page_repeat "[result_a, result_a_more, result_b]" "[]",
     THEN conjunct1, rule_format, OF conjI [OF nd ps]]
  from parser have x1: "first_occurrences (map entry_href (filter eligible (web_results page_repeat)))
     = [''https://a.example/'', ''https://a.example/more'', ''https://b.example/'']"
    by (simp only: urls)
  from parser have "map_option result_of
        (find (\<lambda>e. eligible e \<and> entry_href e = URL result_a) (web_results page_repeat))
     = Some result_a"
    by simp
  then have x2: "map_option result_of
        (find (\<lambda>e. eligible e \<and> entry_href e = ''https://a.example/'') (web_results page_repeat))
     = Some result_a"
    by (simp only: ua)
  have "loop_pages ?rt ?c None go_query world0 [] (buildTextHTMLRequestHeader ''Mozilla/5.0'')
          (buildTextHTMLRequestBody go_query (region ?c)) [] [] world0"
    by (rule no_pages) (simp_all add: go_query_def script_client_def script_runtime_def)
  then have l0: "loop_pages ?rt ?c None go_query world0 [] go_header
          (buildTextHTMLRequestBody go_query RegionWT) [] [] world0"
    by (simp add: go_header_def script_client_def)
  have p1: "doTextHTMLSearch ?rt ?c (DoneAt None) ?r1 world0
     = (Inr ([result_a, result_b], token_one), \<lparr>clock = 0, served = 1\<rparr>)"
    by code_simp
  have p2: "doTextHTMLSearch ?rt ?c (DoneAt None)
       (post_request None go_header token_one) \<lparr>clock = 3, served = 1\<rparr>
     = (Inr ([result_c, result_a], []), \<lparr>clock = 3, served = 2\<rparr>)"
    by code_simp
  have ne: "[result_a, result_b] \<noteq> []" "token_one \<noteq> []"
    "int (length (concat [] @ [result_a, result_b])) < maxResults ?c"
    by (simp_all add: token_one_def script_client_def)
  have af: "After ?rt 3 \<lparr>clock = 0, served = 1\<rparr> = \<lparr>clock = 3, served = 1\<rparr>"
    by (simp add: script_runtime_def)
  have c1: "concat [[result_a, result_b]] = [result_a, result_b]"
    and c0: "[] @ [[result_a, result_b]] = [[result_a, result_b]]"
    by simp_all
  from dedup_is_page_local
    [of _ _ _ _ _ ?rt ?c None go_query world0 go_header "buildTextHTMLRequestBody go_query RegionWT"
        "[]" "[]" world0 "[]" "[result_a, result_b]" token_one "\<lparr>clock = 0, served = 1\<rparr>"]
    l0 p1 ne
  have "loop_pages ?rt ?c None go_query world0 ([] @ [[result_a, result_b]]) go_header token_one
       (concat ([] @ [[result_a, result_b]])) ([] @ [Sent ?r1, Waited 3])
       (After ?rt 3 \<lparr>clock = 0, served = 1\<rparr>)"
    by blast
  then have l1: "loop_pages ?rt ?c None go_query world0 [[result_a, result_b]] go_header token_one
       [result_a, result_b] [Sent ?r1, Waited 3] \<lparr>clock = 3, served = 1\<rparr>"
    by (simp only: c1 c0 af append_Nil)
  have e: "[result_c, result_a] = [] \<or> ([] :: Values) = []
      \<or> maxResults ?c \<le> int (length (concat [[result_a, result_b]] @ [result_c, result_a]))"
    by simp
  have t: "take (nat (maxResults ?c)) (concat [[result_a, result_b], [result_c, result_a]])
      = [result_a, result_b, result_c, result_a]"
    by (simp add: script_client_def)
  from dedup_is_page_local
    [of _ _ _ _ _ ?rt ?c None go_query world0 go_header token_one
        "[result_a, result_b]" "[Sent ?r1, Waited 3]" "\<lparr>clock = 3, served = 1\<rparr>"
        "[[result_a, result_b]]" "[result_c, result_a]" "[]" "\<lparr>clock = 3, served = 2\<rparr>"]
    l1 p2 e
  have "TextSearch ?rt ?c (DoneAt None) go_query world0
     = (Return (finish (take (nat (maxResults ?c))
                  (concat ([[result_a, result_b]] @ [[result_c, result_a]])))),
        [Sent ?r1, Waited 3] @ [Sent (post_request None go_header token_one)],
        \<lparr>clock = 3, served = 2\<rparr>)"
    by blast
  then have y: "TextSearch ?rt ?c (DoneAt None) go_query world0
     = (Return (finish [result_a, result_b, result_c, result_a]),
        [Sent ?r1, Waited 3, Sent (post_request None go_header token_one)],
        \<lparr>clock = 3, served = 2\<rparr>)"
    by (simp only: t append_Cons append_Nil)
  from ps x1 x2 l1 y Results_finish [of "[result_a, result_b, result_c, result_a]"]
  show ?thesis by blast
qed

text \<open>
  The claim as stated fails when the cut removes the later occurrence: both pages return
  the url of \<open>result_a\<close>, and with \<open>maxResults = 3\<close> the returned set holds it once.
\<close>

theorem cross_page_duplicate_cut_off:
  "parseTextHTMLSearchResponse (NewDocumentFromReader (script_runtime two_pages)) ''p1''
     = Inr ([result_a, result_b], token_one)
   \<and> parseTextHTMLSearchResponse (NewDocumentFromReader (script_runtime two_pages)) ''p2''
     = Inr ([result_c, result_a], [])
   \<and> TextSearch (script_runtime two_pages)
       (script_client [ok_response ''p1'', ok_response ''p2''] 3 RegionWT) (DoneAt None)
       go_query world0
     = (Return \<lparr>Message = ''Found 3 results successfully.'',
                Results = [result_a, result_b, result_c], ErrorMessage = []\<rparr>,
        [Sent (post_request None go_header (buildTextHTMLRequestBody go_query RegionWT)),
         Waited 3, Sent (post_request None go_header token_one)], \<lparr>clock = 3, served = 2\<rparr>)
   \<and> count_list (map URL [result_a, result_b, result_c]) (URL result_a) = 1"
  by code_simp

text \<open>
  Claim C4. Results must carry a non-empty title and a non-empty url. The parser drops an
  entry without href but never looks at the title's text: the page whose only entry has a
  title link with an href and an empty text parses to a result with the empty title, and
  \<open>TextSearch\<close> returns it in a success outcome.
\<close>

theorem empty_title_is_returned:
  "parseTextHTMLSearchResponse
       (NewDocumentFromReader (script_runtime [(''p'', untitled_page)])) ''p''
     = Inr ([\<lparr>Title = [], URL = ''https://example.com/'', Summary = ''snippet''\<rparr>], [])
   \<and> fst (TextSearch (script_runtime [(''p'', untitled_page)])
            (script_client [ok_response ''p''] 5 RegionWT) (DoneAt None) go_query world0)
     = Return \<lparr>Message = ''Found 1 results successfully.'',
               Results = [\<lparr>Title = [], URL = ''https://example.com/'', Summary = ''snippet''\<rparr>],
               ErrorMessage = []\<rparr>"
  by code_simp

text \<open>
  Claim C3. Cancellation must be observed during the pacing delay. The delay is a plain
  receive from \<open>time.After\<close> and takes no context: with a context that is done at second 1,
  after a first page answered at second 0 with results and a continuation token, the call
  waits the whole 3 seconds, hands the next request to the transport, which refuses it for
  the cancelled context, and returns at second 3.
\<close>

theorem delay_ignores_cancellation:
  "delays (fst (snd (TextSearch (script_runtime two_pages)
       (script_client [ok_response ''p1'', ok_response ''p2''] 10 RegionWT) (DoneAt (Some 1))
       go_query world0))) = [3]
   \<and> length (requests (fst (snd (TextSearch (script_runtime two_pages)
       (script_client [ok_response ''p1'', ok_response ''p2''] 10 RegionWT) (DoneAt (Some 1))
       go_query world0)))) = 2
   \<and> snd (snd (TextSearch (script_runtime two_pages)
       (script_client [ok_response ''p1'', ok_response ''p2''] 10 RegionWT) (DoneAt (Some 1))
       go_query world0)) = \<lparr>clock = 3, served = 1\<rparr>
   \<and> fst (TextSearch (script_runtime two_pages)
       (script_client [ok_response ''p1'', ok_response ''p2''] 10 RegionWT) (DoneAt (Some 1))
       go_query world0)
     = Return \<lparr>Message = [], Results = [],
         ErrorMessage = ''search request failed: network error, please check your connection: context canceled. Please try again or rephrase your query''\<rparr>"
  by code_simp


end
